theory Spec2Isabelle
  imports Main
begin

section \<open>Python values and dictionaries\<close>

text \<open>
  The orchestrator handles values of Python's type \<open>Any\<close>: the fields of an executor's
  output, the stop signal of a role, the resolved inputs of a flow. They are modelled by the
  JSON-like part of Python's values. A dictionary nested in a value has string keys.
  Floating point numbers are left out.
\<close>

datatype pyval =
    PNone
  | PBool bool
  | PInt int
  | PStr string
  | PList "pyval list"
  | PDict "(string \<times> pyval) list"

text \<open>
  Python's \<open>==\<close> on these values: \<open>bool\<close> is a subclass of \<open>int\<close> (\<open>True == 1\<close>),
  lists compare element by element, dictionaries compare as mappings (the order of the
  items does not matter), values of different kinds are unequal.
\<close>

fun py_eq :: "pyval \<Rightarrow> pyval \<Rightarrow> bool" where
  "py_eq PNone PNone = True"
| "py_eq (PBool a) (PBool b) = (a = b)"
| "py_eq (PBool a) (PInt n) = ((if a then 1 else 0) = n)"
| "py_eq (PInt m) (PBool b) = (m = (if b then 1 else 0))"
| "py_eq (PInt m) (PInt n) = (m = n)"
| "py_eq (PStr s) (PStr t) = (s = t)"
| "py_eq (PList xs) (PList ys) = list_all2 py_eq xs ys"
| "py_eq (PDict d) (PDict e) =
     (length d = length e \<and>
      list_all (\<lambda>kv. case map_of e (fst kv) of None \<Rightarrow> False | Some w \<Rightarrow> py_eq (snd kv) w) d)"
| "py_eq _ _ = False"

text \<open>
  A Python \<open>dict\<close> keeps its items in insertion order, and the spec speaks of the order of
  the fields of a record, so a dictionary is an association list. \<open>d[k] = v\<close> replaces the
  value of a key that is present, in place, and appends a key that is absent.
\<close>

type_synonym pydict = "(string \<times> pyval) list"

fun dict_set :: "'k \<Rightarrow> 'v \<Rightarrow> ('k \<times> 'v) list \<Rightarrow> ('k \<times> 'v) list" where
  "dict_set k v [] = [(k, v)]"
| "dict_set k v (kv # d) = (if fst kv = k then (fst kv, v) # d else kv # dict_set k v d)"

text \<open>\<open>d.update(e)\<close> stores the items of \<open>e\<close> into \<open>d\<close>, in the order of \<open>e\<close>.\<close>

definition dict_update :: "('k \<times> 'v) list \<Rightarrow> ('k \<times> 'v) list \<Rightarrow> ('k \<times> 'v) list" where
  "dict_update d e = foldl (\<lambda>acc kv. dict_set (fst kv) (snd kv) acc) d e"

definition dict_values :: "('k \<times> 'v) list \<Rightarrow> 'v list" where
  "dict_values d = map snd d"

section \<open>Data model\<close>

text \<open>
  The exceptions of \<open>promptflow.orchestrator._errors\<close> carry the kind tag and the name of
  the offending role (the count of roles for \<open>InvalidChatRoleCount\<close>); the built-in
  exceptions are the ones the interpreter raises in this file; \<open>CollaboratorError\<close> is any
  exception raised by an executor proxy or by the batch input resolver.
\<close>

datatype error =
    InvalidChatRoleCount nat
  | MissingConversationHistoryExpression string string
  | MultipleConversationHistoryInputsMapping string string
  | TypeError
  | AttributeError
  | IndexError
  | ZeroDivisionError
  | CollaboratorError string

text \<open>
  \<open>ChatRole\<close>: the attributes this file reads. \<open>flow_inputs\<close> is \<open>chat_role.flow.inputs\<close>,
  which the orchestrator only hands to the resolver.
\<close>

record chat_role =
  role :: string
  name :: string
  flow_file :: string
  working_dir :: string
  flow_inputs :: pyval
  inputs_mapping :: "(string \<times> string) list"
  stop_signal :: pyval

text \<open>
  \<open>LineResult\<close>; its attribute \<open>output\<close> is the field \<open>output_d\<close>. An executor
  returns one whose output and aggregation inputs have string keys; the one the
  orchestrator returns is keyed by the turn index (an \<open>int\<close>) and by the reserved string
  key, hence the key type is a parameter.
\<close>

record 'k line_result =
  output_d :: "('k \<times> pyval) list"
  aggregation_inputs :: "('k \<times> pyval) list"
  node_run_infos :: pydict
  run_info :: pyval

datatype outkey = Turn nat | Key string

type_synonym proxy = nat

text \<open>
  The effects of the orchestrator are its calls to the executor proxies. Each call is
  recorded, with its outcome, in a log; the log is the state that the functions below pass
  along and return.
\<close>

datatype event =
    CreateProxy chat_role "error + proxy"
  | ExecLine proxy pydict int "string option" "error + string line_result"
  | DestroyProxy proxy "error option"

type_synonym world = "event list"

text \<open>
  What this file imports and does not define: the two constants of
  \<open>promptflow._constants\<close>, the proxy factory and the proxies' methods (each may depend on
  everything that has happened so far, and may raise), and the two steps of the batch input
  resolver. \<open>proxy_create\<close> stands for \<open>check_language_from_yaml\<close> followed by
  \<open>ProxyFactory().create_executor_proxy\<close>; \<open>process_batch_inputs_line\<close> for the
  construction of a \<open>BatchInputsProcessor\<close> followed by its method of that name. The calls
  to the logger are left out.
\<close>

record env =
  CONVERSATION_HISTORY_EXPRESSION :: string
  CONVERSATION_HISTORY_OUTPUT_KEY :: string
  proxy_create :: "world \<Rightarrow> chat_role \<Rightarrow> pyval \<Rightarrow> error + proxy"
  proxy_exec_line_async ::
    "world \<Rightarrow> proxy \<Rightarrow> pydict \<Rightarrow> int \<Rightarrow> string option \<Rightarrow> error + string line_result"
  proxy_destroy :: "world \<Rightarrow> proxy \<Rightarrow> error option"
  process_batch_inputs_line ::
    "string \<Rightarrow> pyval \<Rightarrow> int option \<Rightarrow> pydict option \<Rightarrow> (string \<times> string) list \<Rightarrow> error + pydict"
  apply_default_value_for_input :: "pyval \<Rightarrow> pydict \<Rightarrow> error + pydict"

record orchestrator =
  storage :: pyval
  max_turn :: "int option"
  chat_group_roles :: "chat_role list"
  max_lines_count :: "int option"
  executor_proxies :: "proxy list"

section \<open>Construction and destruction\<close>

text \<open>\<open>_create_executor_proxy\<close>: one proxy per role, in the order of the roles.\<close>

fun create_executor_proxy_loop ::
  "env \<Rightarrow> pyval \<Rightarrow> chat_role list \<Rightarrow> proxy list \<Rightarrow> world \<Rightarrow> (error + proxy list) \<times> world" where
  "create_executor_proxy_loop E sto [] executor_proxy_list w = (Inr executor_proxy_list, w)"
| "create_executor_proxy_loop E sto (chat_role # rest) executor_proxy_list w =
     (case proxy_create E w chat_role sto of
        Inl e \<Rightarrow> (Inl e, w @ [CreateProxy chat_role (Inl e)])
      | Inr executor_proxy \<Rightarrow>
          create_executor_proxy_loop E sto rest (executor_proxy_list @ [executor_proxy])
            (w @ [CreateProxy chat_role (Inr executor_proxy)]))"

definition create_executor_proxy ::
  "env \<Rightarrow> pyval \<Rightarrow> chat_role list \<Rightarrow> world \<Rightarrow> (error + proxy list) \<times> world" where
  "create_executor_proxy E sto roles w = create_executor_proxy_loop E sto roles [] w"

text \<open>\<open>ChatGroupOrchestrator.__init__\<close>.\<close>

definition init ::
  "env \<Rightarrow> chat_role list \<Rightarrow> int option \<Rightarrow> pyval \<Rightarrow> int option \<Rightarrow> world
     \<Rightarrow> (error + orchestrator) \<times> world" where
  "init E roles mt sto mlc w =
     (if length roles < 2 then (Inl (InvalidChatRoleCount (length roles)), w)
      else
        (case create_executor_proxy E sto roles w of
           (Inl e, w') \<Rightarrow> (Inl e, w')
         | (Inr proxies, w') \<Rightarrow>
             (Inr \<lparr>storage = sto, max_turn = mt, chat_group_roles = roles,
                   max_lines_count = mlc, executor_proxies = proxies\<rparr>, w')))"

text \<open>\<open>destroy\<close>: an exception of a proxy's \<open>destroy\<close> leaves the loop.\<close>

fun destroy_loop :: "env \<Rightarrow> proxy list \<Rightarrow> world \<Rightarrow> (error + unit) \<times> world" where
  "destroy_loop E [] w = (Inr (), w)"
| "destroy_loop E (executor_proxy # rest) w =
     (case proxy_destroy E w executor_proxy of
        Some e \<Rightarrow> (Inl e, w @ [DestroyProxy executor_proxy (Some e)])
      | None \<Rightarrow> destroy_loop E rest (w @ [DestroyProxy executor_proxy None]))"

definition destroy :: "env \<Rightarrow> orchestrator \<Rightarrow> world \<Rightarrow> (error + unit) \<times> world" where
  "destroy E orch w = destroy_loop E (executor_proxies orch) w"

section \<open>Scheduling one line\<close>

text \<open>\<open>_process_batch_inputs\<close>: the two checks of a role's mapping, then the resolver.\<close>

fun process_batch_inputs_loop ::
  "env \<Rightarrow> int option \<Rightarrow> pydict option \<Rightarrow> chat_role list \<Rightarrow> pydict list \<Rightarrow> error + pydict list" where
  "process_batch_inputs_loop E mlc inputs [] batch_inputs = Inr batch_inputs"
| "process_batch_inputs_loop E mlc inputs (chat_role # rest) batch_inputs =
     (if CONVERSATION_HISTORY_EXPRESSION E \<notin> set (dict_values (inputs_mapping chat_role))
      then Inl (MissingConversationHistoryExpression (role chat_role) (name chat_role))
      else if count_list (dict_values (inputs_mapping chat_role))
                (CONVERSATION_HISTORY_EXPRESSION E) > 1
      then Inl (MultipleConversationHistoryInputsMapping (role chat_role) (name chat_role))
      else
        (case process_batch_inputs_line E (working_dir chat_role) (flow_inputs chat_role) mlc
                inputs (inputs_mapping chat_role) of
           Inl e \<Rightarrow> Inl e
         | Inr batch_input \<Rightarrow>
             (case apply_default_value_for_input E (flow_inputs chat_role) batch_input of
                Inl e \<Rightarrow> Inl e
              | Inr resolved_batch_input \<Rightarrow>
                  process_batch_inputs_loop E mlc inputs rest
                    (batch_inputs @ [resolved_batch_input]))))"

definition process_batch_inputs ::
  "env \<Rightarrow> orchestrator \<Rightarrow> pydict option \<Rightarrow> error + pydict list" where
  "process_batch_inputs E orch inputs =
     process_batch_inputs_loop E (max_lines_count orch) inputs (chat_group_roles orch) []"

text \<open>
  \<open>_process_flow_outputs\<close>. The three containers it mutates are returned. The history holds
  the records themselves; where the history is stored as a value it is the list of them.
  In the source the history is one list object, which the inputs of the roles and the final
  output refer to; what an executor may do to it is the subject of \<open>run_turn_shared\<close>
  below.
\<close>

definition history_value :: "pydict list \<Rightarrow> pyval" where
  "history_value conversation_history = PList (map PDict conversation_history)"

definition process_flow_outputs ::
  "nat \<Rightarrow> chat_role \<Rightarrow> string line_result \<Rightarrow> pydict list \<Rightarrow> (outkey \<times> pyval) list
     \<Rightarrow> (outkey \<times> pyval) list
     \<Rightarrow> pydict list \<times> (outkey \<times> pyval) list \<times> (outkey \<times> pyval) list" where
  "process_flow_outputs index chat_role current_line_result conversation_history outs aggs =
     (let current_turn = dict_update [(''role'', PStr (role chat_role))] (output_d current_line_result)
      in (conversation_history @ [current_turn],
          dict_update outs [(Turn index, PDict current_turn)],
          dict_update aggs [(Turn index, PDict (aggregation_inputs current_line_result))]))"

text \<open>
  \<open>next((key for key, value in inputs_mapping.items() if value == EXPR), None)\<close>.
\<close>

definition conversation_history_key :: "env \<Rightarrow> chat_role \<Rightarrow> string option" where
  "conversation_history_key E chat_role =
     map_option fst
       (find (\<lambda>kv. snd kv = CONVERSATION_HISTORY_EXPRESSION E) (inputs_mapping chat_role))"

text \<open>
  \<open>any(value == chat_role.stop_signal for value in current_line_result.output.values())\<close>.
\<close>

definition stop_hit :: "chat_role \<Rightarrow> string line_result \<Rightarrow> bool" where
  "stop_hit chat_role current_line_result =
     list_ex (\<lambda>v. py_eq v (stop_signal chat_role)) (dict_values (output_d current_line_result))"

text \<open>The local variables of \<open>_schedule_line_runs\<close> that live across the turns.\<close>

record loop_state =
  batch_inputs :: "pydict list"
  conversation_history :: "pydict list"
  outputs :: "(outkey \<times> pyval) list"
  aggregation_inputs_st :: "(outkey \<times> pyval) list"
  current_line_result :: "string line_result option"

text \<open>
  The body of the loop for one turn. It returns the new state and whether the loop breaks.
  The resolved input of the role is updated in place in \<open>batch_inputs\<close>. Here the
  executor leaves the history list as it is handed it; the body for an executor that may
  change the list is \<open>run_turn_shared\<close> below.
\<close>

definition run_turn ::
  "env \<Rightarrow> orchestrator \<Rightarrow> int \<Rightarrow> string option \<Rightarrow> nat \<Rightarrow> nat \<Rightarrow> loop_state \<Rightarrow> world
     \<Rightarrow> (error + loop_state \<times> bool) \<times> world" where
  "run_turn E orch line_index run_id total_roles turn st w =
     (if total_roles = 0 then (Inl ZeroDivisionError, w)
      else
        (let role_index = turn mod total_roles in
         if length (executor_proxies orch) \<le> role_index then (Inl IndexError, w)
         else if length (chat_group_roles orch) \<le> role_index then (Inl IndexError, w)
         else if length (batch_inputs st) \<le> role_index then (Inl IndexError, w)
         else
           (let executor_proxy = executor_proxies orch ! role_index;
                chat_role = chat_group_roles orch ! role_index;
                chat_role_input = batch_inputs st ! role_index
            in case conversation_history_key E chat_role of
                 None \<Rightarrow>
                   (Inl (MissingConversationHistoryExpression (role chat_role) (name chat_role)), w)
               | Some key \<Rightarrow>
                   (let chat_role_input' =
                          dict_set key (history_value (conversation_history st)) chat_role_input
                    in case proxy_exec_line_async E w executor_proxy chat_role_input'
                              line_index run_id of
                         Inl e \<Rightarrow>
                           (Inl e,
                            w @ [ExecLine executor_proxy chat_role_input' line_index run_id (Inl e)])
                       | Inr clr \<Rightarrow>
                           (case process_flow_outputs turn chat_role clr (conversation_history st)
                                   (outputs st) (aggregation_inputs_st st) of
                              (h, outs, aggs) \<Rightarrow>
                                (Inr (\<lparr>batch_inputs =
                                         (batch_inputs st)[role_index := chat_role_input'],
                                       conversation_history = h,
                                       outputs = outs,
                                       aggregation_inputs_st = aggs,
                                       current_line_result = Some clr\<rparr>,
                                      stop_hit chat_role clr),
                                 w @ [ExecLine executor_proxy chat_role_input' line_index run_id
                                        (Inr clr)]))))))"

text \<open>\<open>for turn in range(self._max_turn)\<close>, over the list of the turns still to run.\<close>

fun turn_loop ::
  "env \<Rightarrow> orchestrator \<Rightarrow> int \<Rightarrow> string option \<Rightarrow> nat \<Rightarrow> nat list \<Rightarrow> loop_state \<Rightarrow> world
     \<Rightarrow> (error + loop_state) \<times> world" where
  "turn_loop E orch line_index run_id total_roles [] st w = (Inr st, w)"
| "turn_loop E orch line_index run_id total_roles (turn # turns) st w =
     (case run_turn E orch line_index run_id total_roles turn st w of
        (Inl e, w') \<Rightarrow> (Inl e, w')
      | (Inr (st', brk), w') \<Rightarrow>
          if brk then (Inr st', w')
          else turn_loop E orch line_index run_id total_roles turns st' w')"

text \<open>
  \<open>_schedule_line_runs\<close>. \<open>range(None)\<close> raises \<open>TypeError\<close>, \<open>range(m)\<close> is empty for
  \<open>m \<le> 0\<close>; reading \<open>node_run_infos\<close> of a \<open>current_line_result\<close> that is still \<open>None\<close>
  raises \<open>AttributeError\<close>.
\<close>

definition schedule_line_runs ::
  "env \<Rightarrow> orchestrator \<Rightarrow> int \<Rightarrow> pydict option \<Rightarrow> string option \<Rightarrow> world
     \<Rightarrow> (error + outkey line_result) \<times> world" where
  "schedule_line_runs E orch line_index inputs run_id w =
     (let total_roles = length (chat_group_roles orch) in
      case process_batch_inputs E orch inputs of
        Inl e \<Rightarrow> (Inl e, w)
      | Inr bis \<Rightarrow>
          (case max_turn orch of
             None \<Rightarrow> (Inl TypeError, w)
           | Some m \<Rightarrow>
               (case turn_loop E orch line_index run_id total_roles [0..<nat m]
                       \<lparr>batch_inputs = bis, conversation_history = [], outputs = [],
                        aggregation_inputs_st = [], current_line_result = None\<rparr> w of
                  (Inl e, w') \<Rightarrow> (Inl e, w')
                | (Inr st, w') \<Rightarrow>
                    (let outs = dict_update (outputs st)
                                  [(Key (CONVERSATION_HISTORY_OUTPUT_KEY E),
                                    history_value (conversation_history st))]
                     in case current_line_result st of
                          None \<Rightarrow> (Inl AttributeError, w')
                        | Some clr \<Rightarrow>
                            (Inr \<lparr>output_d = outs,
                                  aggregation_inputs = aggregation_inputs_st st,
                                  node_run_infos = node_run_infos clr,
                                  run_info = run_info clr\<rparr>, w')))))"

section \<open>The history as a list shared with the executors\<close>

text \<open>
  In the source the value stored in the input of a turn is the list object
  \<open>conversation_history\<close> itself (line 138). The executor is awaited with it (line 143),
  then the record of the turn is appended to the same object (line 187), which is also what
  the Line Result publishes (line 167). An executor that runs in process can therefore
  change the list: clear it, drop or reorder its records. \<open>run_turn\<close> above is the loop
  body for executors that leave the list as they are handed it. The definitions of this
  section are the same loop for any executor: a \<open>history_effect\<close> says what a call leaves
  in the list it was handed, and the turn appends its record to that. The effect is on
  the list, that is on which records it holds and in which order; the statements below use
  it for nothing else.
\<close>

type_synonym history_effect = "world \<Rightarrow> proxy \<Rightarrow> pydict \<Rightarrow> int \<Rightarrow> string option \<Rightarrow> pydict list \<Rightarrow> pydict list"

definition run_turn_shared ::
  "env \<Rightarrow> history_effect \<Rightarrow> orchestrator \<Rightarrow> int \<Rightarrow> string option \<Rightarrow> nat \<Rightarrow> nat \<Rightarrow> loop_state
     \<Rightarrow> world \<Rightarrow> (error + loop_state \<times> bool) \<times> world" where
  "run_turn_shared E left orch line_index run_id total_roles turn st w =
     (if total_roles = 0 then (Inl ZeroDivisionError, w)
      else
        (let role_index = turn mod total_roles in
         if length (executor_proxies orch) \<le> role_index then (Inl IndexError, w)
         else if length (chat_group_roles orch) \<le> role_index then (Inl IndexError, w)
         else if length (batch_inputs st) \<le> role_index then (Inl IndexError, w)
         else
           (let executor_proxy = executor_proxies orch ! role_index;
                chat_role = chat_group_roles orch ! role_index;
                chat_role_input = batch_inputs st ! role_index
            in case conversation_history_key E chat_role of
                 None \<Rightarrow>
                   (Inl (MissingConversationHistoryExpression (role chat_role) (name chat_role)), w)
               | Some key \<Rightarrow>
                   (let chat_role_input' =
                          dict_set key (history_value (conversation_history st)) chat_role_input
                    in case proxy_exec_line_async E w executor_proxy chat_role_input'
                              line_index run_id of
                         Inl e \<Rightarrow>
                           (Inl e,
                            w @ [ExecLine executor_proxy chat_role_input' line_index run_id (Inl e)])
                       | Inr clr \<Rightarrow>
                           (case process_flow_outputs turn chat_role clr
                                   (left w executor_proxy chat_role_input' line_index run_id
                                      (conversation_history st))
                                   (outputs st) (aggregation_inputs_st st) of
                              (h, outs, aggs) \<Rightarrow>
                                (Inr (\<lparr>batch_inputs =
                                         (batch_inputs st)[role_index := chat_role_input'],
                                       conversation_history = h,
                                       outputs = outs,
                                       aggregation_inputs_st = aggs,
                                       current_line_result = Some clr\<rparr>,
                                      stop_hit chat_role clr),
                                 w @ [ExecLine executor_proxy chat_role_input' line_index run_id
                                        (Inr clr)]))))))"

fun turn_loop_shared ::
  "env \<Rightarrow> history_effect \<Rightarrow> orchestrator \<Rightarrow> int \<Rightarrow> string option \<Rightarrow> nat \<Rightarrow> nat list
     \<Rightarrow> loop_state \<Rightarrow> world \<Rightarrow> (error + loop_state) \<times> world" where
  "turn_loop_shared E left orch line_index run_id total_roles [] st w = (Inr st, w)"
| "turn_loop_shared E left orch line_index run_id total_roles (turn # turns) st w =
     (case run_turn_shared E left orch line_index run_id total_roles turn st w of
        (Inl e, w') \<Rightarrow> (Inl e, w')
      | (Inr (st', brk), w') \<Rightarrow>
          if brk then (Inr st', w')
          else turn_loop_shared E left orch line_index run_id total_roles turns st' w')"

definition schedule_line_runs_shared ::
  "env \<Rightarrow> history_effect \<Rightarrow> orchestrator \<Rightarrow> int \<Rightarrow> pydict option \<Rightarrow> string option \<Rightarrow> world
     \<Rightarrow> (error + outkey line_result) \<times> world" where
  "schedule_line_runs_shared E left orch line_index inputs run_id w =
     (let total_roles = length (chat_group_roles orch) in
      case process_batch_inputs E orch inputs of
        Inl e \<Rightarrow> (Inl e, w)
      | Inr bis \<Rightarrow>
          (case max_turn orch of
             None \<Rightarrow> (Inl TypeError, w)
           | Some m \<Rightarrow>
               (case turn_loop_shared E left orch line_index run_id total_roles [0..<nat m]
                       \<lparr>batch_inputs = bis, conversation_history = [], outputs = [],
                        aggregation_inputs_st = [], current_line_result = None\<rparr> w of
                  (Inl e, w') \<Rightarrow> (Inl e, w')
                | (Inr st, w') \<Rightarrow>
                    (let outs = dict_update (outputs st)
                                  [(Key (CONVERSATION_HISTORY_OUTPUT_KEY E),
                                    history_value (conversation_history st))]
                     in case current_line_result st of
                          None \<Rightarrow> (Inl AttributeError, w')
                        | Some clr \<Rightarrow>
                            (Inr \<lparr>output_d = outs,
                                  aggregation_inputs = aggregation_inputs_st st,
                                  node_run_infos = node_run_infos clr,
                                  run_info = run_info clr\<rparr>, w')))))"

section \<open>Reading the log of a run\<close>

text \<open>
  The functions of this section are not in the source: they name what the statements below
  say about a run. \<open>ev_result\<close> is the result of a call of \<open>exec_line_async\<close> that
  returned; \<open>advance\<close> is the state after a turn whose call returned, as \<open>run_turn\<close>
  builds it; \<open>turn_input\<close> is the input of a turn; \<open>replay\<close> runs \<open>advance\<close> along a log.
\<close>

fun ev_result :: "event \<Rightarrow> string line_result option" where
  "ev_result (ExecLine p inp li rid (Inr clr)) = Some clr"
| "ev_result _ = None"

definition advance :: "orchestrator \<Rightarrow> nat \<Rightarrow> nat \<Rightarrow> pydict \<Rightarrow> string line_result \<Rightarrow> loop_state \<Rightarrow> loop_state" where
  "advance orch N t inp clr st =
     \<lparr>batch_inputs = (batch_inputs st)[t mod N := inp],
      conversation_history = conversation_history st @
         [dict_update [(''role'', PStr (role (chat_group_roles orch ! (t mod N))))] (output_d clr)],
      outputs = dict_set (Turn t)
         (PDict (dict_update [(''role'', PStr (role (chat_group_roles orch ! (t mod N))))] (output_d clr)))
         (outputs st),
      aggregation_inputs_st = dict_set (Turn t) (PDict (aggregation_inputs clr)) (aggregation_inputs_st st),
      current_line_result = Some clr\<rparr>"

definition turn_input :: "env \<Rightarrow> orchestrator \<Rightarrow> nat \<Rightarrow> nat \<Rightarrow> loop_state \<Rightarrow> pydict option" where
  "turn_input E orch N t st =
     (case conversation_history_key E (chat_group_roles orch ! (t mod N)) of
        None \<Rightarrow> None
      | Some key \<Rightarrow> Some (dict_set key (history_value (conversation_history st)) (batch_inputs st ! (t mod N))))"

fun replay :: "orchestrator \<Rightarrow> nat \<Rightarrow> nat list \<Rightarrow> event list \<Rightarrow> loop_state \<Rightarrow> loop_state" where
  "replay orch N (t # ts) (ExecLine p inp li rid (Inr clr) # evs) st =
     replay orch N ts evs (advance orch N t inp clr st)"
| "replay orch N ts evs st = st"

definition trace_ok ::
  "env \<Rightarrow> orchestrator \<Rightarrow> int \<Rightarrow> string option \<Rightarrow> nat \<Rightarrow> nat list \<Rightarrow> loop_state \<Rightarrow> event list \<Rightarrow> bool" where
  "trace_ok E orch li rid N ts st evs \<longleftrightarrow>
     length evs \<le> length ts \<and>
     (\<forall>i<length evs. \<exists>inp out.
        ts ! i mod N < length (executor_proxies orch) \<and>
        ts ! i mod N < length (chat_group_roles orch) \<and>
        turn_input E orch N (ts ! i) (replay orch N ts (take i evs) st) = Some inp \<and>
        evs ! i = ExecLine (executor_proxies orch ! (ts ! i mod N)) inp li rid out) \<and>
     (\<forall>i. Suc i < length evs \<longrightarrow>
        (\<exists>clr. ev_result (evs ! i) = Some clr \<and> \<not> stop_hit (chat_group_roles orch ! (ts ! i mod N)) clr))"

definition rec_of :: "orchestrator \<Rightarrow> nat \<Rightarrow> nat \<Rightarrow> event \<Rightarrow> pydict" where
  "rec_of orch N t ev =
     (case ev_result ev of
        None \<Rightarrow> []
      | Some clr \<Rightarrow> dict_update [(''role'', PStr (role (chat_group_roles orch ! (t mod N))))] (output_d clr))"

definition agg_of :: "event \<Rightarrow> pydict" where
  "agg_of ev = (case ev_result ev of None \<Rightarrow> [] | Some clr \<Rightarrow> aggregation_inputs clr)"

text \<open>
  The history record and the aggregation payload of turn \<open>t\<close> of a run whose calls are
  \<open>evs\<close>, as \<open>_process_flow_outputs\<close> computes them from the result of that call.
\<close>

definition turn_record :: "orchestrator \<Rightarrow> event list \<Rightarrow> nat \<Rightarrow> pydict" where
  "turn_record orch evs t = rec_of orch (length (chat_group_roles orch)) t (evs ! t)"

definition turn_aggregation :: "event list \<Rightarrow> nat \<Rightarrow> pydict" where
  "turn_aggregation evs t = agg_of (evs ! t)"

section \<open>A concrete chat group\<close>

text \<open>
  Two roles with the stop signal \<open>bye\<close>, and collaborators that never fail: the proxy of a
  role answers the message that a script gives for the number of calls made so far.
\<close>

definition role_A :: chat_role where
  "role_A = \<lparr>role = ''A'', name = ''alice'', flow_file = ''a.yaml'', working_dir = ''.'',
     flow_inputs = PNone,
     inputs_mapping = [(''question'', ''${data.question}''),
                       (''history'', ''${parent.conversation_history}'')],
     stop_signal = PStr ''bye''\<rparr>"

definition role_B :: chat_role where
  "role_B = \<lparr>role = ''B'', name = ''bob'', flow_file = ''b.yaml'', working_dir = ''.'',
     flow_inputs = PNone,
     inputs_mapping = [(''chat'', ''${parent.conversation_history}'')],
     stop_signal = PStr ''bye''\<rparr>"

definition msg_result :: "string \<Rightarrow> string line_result" where
  "msg_result s =
     \<lparr>output_d = [(''msg'', PStr s)],
      aggregation_inputs = [(''size'', PInt (int (length s)))],
      node_run_infos = [(''node'', PStr s)],
      run_info = PStr s\<rparr>"

definition demo_env :: "(nat \<Rightarrow> string) \<Rightarrow> env" where
  "demo_env script =
     \<lparr>CONVERSATION_HISTORY_EXPRESSION = ''${parent.conversation_history}'',
      CONVERSATION_HISTORY_OUTPUT_KEY = ''conversation_history'',
      proxy_create = (\<lambda>w r sto. Inr (length w)),
      proxy_exec_line_async = (\<lambda>w p inp li rid. Inr (msg_result (script (length w)))),
      proxy_destroy = (\<lambda>w p. None),
      process_batch_inputs_line = (\<lambda>wd fi mlc inputs m. Inr (map (\<lambda>kv. (fst kv, PStr (snd kv))) m)),
      apply_default_value_for_input = (\<lambda>fi d. Inr d)\<rparr>"

definition demo_orch :: "int option \<Rightarrow> orchestrator" where
  "demo_orch mt =
     \<lparr>storage = PNone, max_turn = mt, chat_group_roles = [role_A, role_B],
      max_lines_count = None, executor_proxies = [0, 1]\<rparr>"

text \<open>
  The run of the spec's example: \<open>A\<close> says \<open>hi\<close>, \<open>B\<close> says \<open>bye\<close>, with a budget of
  four turns. \<open>demo_log\<close> is the two calls it makes, \<open>demo_line_result\<close> what it returns.
\<close>

definition demo_log :: "event list" where
  "demo_log =
     [ExecLine 0 [(''question'', PStr ''${data.question}''), (''history'', PList [])] 0 None
        (Inr (msg_result ''hi'')),
      ExecLine 1 [(''chat'', PList [PDict [(''role'', PStr ''A''), (''msg'', PStr ''hi'')]])] 0 None
        (Inr (msg_result ''bye''))]"

definition demo_line_result :: "outkey line_result" where
  "demo_line_result =
     \<lparr>output_d =
        [(Turn 0, PDict [(''role'', PStr ''A''), (''msg'', PStr ''hi'')]),
         (Turn 1, PDict [(''role'', PStr ''B''), (''msg'', PStr ''bye'')]),
         (Key ''conversation_history'',
          PList [PDict [(''role'', PStr ''A''), (''msg'', PStr ''hi'')],
                 PDict [(''role'', PStr ''B''), (''msg'', PStr ''bye'')]])],
      aggregation_inputs = [(Turn 0, PDict [(''size'', PInt 2)]), (Turn 1, PDict [(''size'', PInt 3)])],
      node_run_infos = [(''node'', PStr ''bye'')],
      run_info = PStr ''bye''\<rparr>"

definition demo_script :: "nat \<Rightarrow> string" where
  "demo_script n = (if n = 1 then ''bye'' else ''hi'')"

text \<open>Three turns in which nobody says \<open>bye\<close>: the calls of that run.\<close>

definition demo_log3 :: "event list" where
  "demo_log3 =
     [ExecLine 0 [(''question'', PStr ''${data.question}''), (''history'', PList [])] 0 None
        (Inr (msg_result ''hi'')),
      ExecLine 1 [(''chat'', PList [PDict [(''role'', PStr ''A''), (''msg'', PStr ''hi'')]])] 0 None
        (Inr (msg_result ''hi'')),
      ExecLine 0 [(''question'', PStr ''${data.question}''),
                  (''history'', PList [PDict [(''role'', PStr ''A''), (''msg'', PStr ''hi'')],
                                       PDict [(''role'', PStr ''B''), (''msg'', PStr ''hi'')]])] 0 None
        (Inr (msg_result ''hi''))]"

text \<open>
  A role whose mapping does not bind the conversation history, and a group that has it as
  its second role.
\<close>

definition role_C :: chat_role where
  "role_C = \<lparr>role = ''C'', name = ''carol'', flow_file = ''c.yaml'', working_dir = ''.'',
     flow_inputs = PNone,
     inputs_mapping = [(''question'', ''${data.question}'')],
     stop_signal = PStr ''bye''\<rparr>"

definition bad_orch :: orchestrator where
  "bad_orch = (demo_orch (Some 4))\<lparr>chat_group_roles := [role_A, role_C]\<rparr>"

text \<open>Collaborators whose first proxy cannot be destroyed.\<close>

definition failing_destroy_env :: env where
  "failing_destroy_env =
     (demo_env demo_script)
       \<lparr>proxy_destroy := (\<lambda>w p. if p = 0 then Some (CollaboratorError ''destroy failed'') else None)\<rparr>"

text \<open>A result whose output has a field named \<open>role\<close>.\<close>

definition role_record_result :: "string line_result" where
  "role_record_result =
     \<lparr>output_d = [(''msg'', PStr ''hi''), (''role'', PStr ''system'')],
      aggregation_inputs = [],
      node_run_infos = [],
      run_info = PNone\<rparr>"

text \<open>
  Executors that leave the history list alone; executors of which the second clears the
  list it is handed; and a script that numbers the messages.
\<close>

definition leaves_unchanged :: history_effect where
  "leaves_unchanged w p inp li rid h = h"

definition clearing_effect :: history_effect where
  "clearing_effect w p inp li rid h = (if p = 1 then [] else h)"

definition count_script :: "nat \<Rightarrow> string" where
  "count_script n = (if n = 0 then ''m0'' else if n = 1 then ''m1'' else ''m2'')"

section \<open>The steps of a run\<close>

text \<open>
  One turn either fails before the executor is called, and the log is unchanged, or adds
  exactly one call to the log; a run is the sequence of these calls. \<open>trace_ok\<close> says
  what the calls of a run look like; \<open>turn_loop_trace\<close> is the invariant of the loop.
\<close>

lemma run_turn_cases:
  assumes "run_turn E orch li rid N t st w = (r, w')"
  shows "(\<exists>e. r = Inl e \<and> w' = w) \<or>
         (\<exists>inp out. 0 < N \<and> t mod N < length (executor_proxies orch) \<and>
            t mod N < length (chat_group_roles orch) \<and> t mod N < length (batch_inputs st) \<and>
            turn_input E orch N t st = Some inp \<and>
            w' = w @ [ExecLine (executor_proxies orch ! (t mod N)) inp li rid out] \<and>
            (case out of Inl e \<Rightarrow> r = Inl e
             | Inr clr \<Rightarrow> r = Inr (advance orch N t inp clr st,
                    stop_hit (chat_group_roles orch ! (t mod N)) clr)))"
  using assms
  by (auto simp: run_turn_def Let_def advance_def turn_input_def process_flow_outputs_def dict_update_def
      split: if_splits option.splits sum.splits)

lemma trace_ok_Nil: "trace_ok E orch li rid N ts st []"
  by (simp add: trace_ok_def)

lemma trace_ok_single:
  assumes "turn_input E orch N t st = Some inp"
    and "t mod N < length (executor_proxies orch)" "t mod N < length (chat_group_roles orch)"
  shows "trace_ok E orch li rid N (t # ts) st [ExecLine (executor_proxies orch ! (t mod N)) inp li rid out]"
  using assms by (simp add: trace_ok_def)

lemma trace_ok_Cons:
  assumes "turn_input E orch N t st = Some inp"
    and "t mod N < length (executor_proxies orch)" "t mod N < length (chat_group_roles orch)"
    and "\<not> stop_hit (chat_group_roles orch ! (t mod N)) clr"
    and "trace_ok E orch li rid N ts (advance orch N t inp clr st) evs"
  shows "trace_ok E orch li rid N (t # ts) st
           (ExecLine (executor_proxies orch ! (t mod N)) inp li rid (Inr clr) # evs)"
  unfolding trace_ok_def
proof (intro conjI allI impI)
  show "length (ExecLine (executor_proxies orch ! (t mod N)) inp li rid (Inr clr) # evs) \<le> length (t # ts)"
    using assms(5) by (simp add: trace_ok_def)
next
  fix i assume "i < length (ExecLine (executor_proxies orch ! (t mod N)) inp li rid (Inr clr) # evs)"
  then show "\<exists>inpa out.
            (t # ts) ! i mod N < length (executor_proxies orch) \<and>
            (t # ts) ! i mod N < length (chat_group_roles orch) \<and>
            turn_input E orch N ((t # ts) ! i)
             (replay orch N (t # ts)
               (take i (ExecLine (executor_proxies orch ! (t mod N)) inp li rid (Inr clr) # evs)) st) =
            Some inpa \<and>
            (ExecLine (executor_proxies orch ! (t mod N)) inp li rid (Inr clr) # evs) ! i =
            ExecLine (executor_proxies orch ! ((t # ts) ! i mod N)) inpa li rid out"
    using assms by (cases i) (auto simp: trace_ok_def)
next
  fix i assume "Suc i < length (ExecLine (executor_proxies orch ! (t mod N)) inp li rid (Inr clr) # evs)"
  then show "\<exists>clra. ev_result ((ExecLine (executor_proxies orch ! (t mod N)) inp li rid (Inr clr) # evs) ! i) = Some clra \<and>
            \<not> stop_hit (chat_group_roles orch ! ((t # ts) ! i mod N)) clra"
    using assms by (cases i) (auto simp: trace_ok_def)
qed

lemma turn_loop_trace:
  "turn_loop E orch li rid N ts st w = (r, w') \<Longrightarrow>
   \<exists>evs. w' = w @ evs \<and> trace_ok E orch li rid N ts st evs \<and>
     (\<forall>st'. r = Inr st' \<longrightarrow>
        st' = replay orch N ts evs st \<and>
        (\<forall>ev\<in>set evs. ev_result ev \<noteq> None) \<and>
        (length evs < length ts \<longrightarrow>
           evs \<noteq> [] \<and>
           (\<exists>clr. ev_result (last evs) = Some clr \<and>
              stop_hit (chat_group_roles orch ! (ts ! (length evs - 1) mod N)) clr)))"
proof (induction ts arbitrary: st w r w')
  case Nil
  then show ?case by (auto simp: trace_ok_Nil)
next
  case (Cons t ts)
  obtain r1 w1 where step: "run_turn E orch li rid N t st w = (r1, w1)"
    by (cases "run_turn E orch li rid N t st w")
  from run_turn_cases[OF step] show ?case
  proof (elim disjE exE conjE)
    fix e assume "r1 = Inl e" "w1 = w"
    with Cons.prems step show ?thesis by (auto simp: trace_ok_Nil)
  next
    fix inp out
    assume n: "0 < N" and b: "t mod N < length (executor_proxies orch)"
      "t mod N < length (chat_group_roles orch)" "t mod N < length (batch_inputs st)"
      and ti: "turn_input E orch N t st = Some inp"
      and w1: "w1 = w @ [ExecLine (executor_proxies orch ! (t mod N)) inp li rid out]"
      and out: "case out of Inl e \<Rightarrow> r1 = Inl e
             | Inr clr \<Rightarrow> r1 = Inr (advance orch N t inp clr st,
                    stop_hit (chat_group_roles orch ! (t mod N)) clr)"
    show ?thesis
    proof (cases out)
      case (Inl e)
      with out step Cons.prems w1 have "r = Inl e" "w' = w @ [ExecLine (executor_proxies orch ! (t mod N)) inp li rid out]"
        by auto
      then show ?thesis using trace_ok_single[OF ti b(1,2)] by auto
    next
      case (Inr clr)
      with out have r1: "r1 = Inr (advance orch N t inp clr st, stop_hit (chat_group_roles orch ! (t mod N)) clr)"
        by simp
      show ?thesis
      proof (cases "stop_hit (chat_group_roles orch ! (t mod N)) clr")
        case True
        with r1 step Cons.prems w1 have "r = Inr (advance orch N t inp clr st)"
          "w' = w @ [ExecLine (executor_proxies orch ! (t mod N)) inp li rid out]"
          by auto
        then show ?thesis using trace_ok_single[OF ti b(1,2)] True Inr by auto
      next
        case False
        with r1 step Cons.prems w1 have
          rec: "turn_loop E orch li rid N ts (advance orch N t inp clr st)
             (w @ [ExecLine (executor_proxies orch ! (t mod N)) inp li rid out]) = (r, w')"
          by auto
        from Cons.IH[OF rec] obtain evs where
          e1: "w' = (w @ [ExecLine (executor_proxies orch ! (t mod N)) inp li rid out]) @ evs"
          and e2: "trace_ok E orch li rid N ts (advance orch N t inp clr st) evs"
          and e3: "\<forall>st'. r = Inr st' \<longrightarrow>
             st' = replay orch N ts evs (advance orch N t inp clr st) \<and>
             (\<forall>ev\<in>set evs. ev_result ev \<noteq> None) \<and>
             (length evs < length ts \<longrightarrow>
                evs \<noteq> [] \<and>
               (\<exists>clr. ev_result (last evs) = Some clr \<and>
                  stop_hit (chat_group_roles orch ! (ts ! (length evs - 1) mod N)) clr))"
          by blast
        let ?ev = "ExecLine (executor_proxies orch ! (t mod N)) inp li rid (Inr clr)"
        have "w' = w @ (?ev # evs)" using e1 Inr by simp
        moreover have "trace_ok E orch li rid N (t # ts) st (?ev # evs)"
          by (rule trace_ok_Cons[OF ti b(1,2) False e2])
        moreover have "\<forall>st'. r = Inr st' \<longrightarrow>
             st' = replay orch N (t # ts) (?ev # evs) st \<and>
             (\<forall>ev\<in>set (?ev # evs). ev_result ev \<noteq> None) \<and>
             (length (?ev # evs) < length (t # ts) \<longrightarrow>
                (?ev # evs) \<noteq> [] \<and>
               (\<exists>clr. ev_result (last (?ev # evs)) = Some clr \<and>
                  stop_hit (chat_group_roles orch ! ((t # ts) ! (length (?ev # evs) - 1) mod N)) clr))"
          using e3 by (auto simp: nth_Cons split: nat.splits)
        ultimately show ?thesis by blast
      qed
    qed
  qed
qed

subsection \<open>Dictionaries\<close>

lemma map_of_dict_set: "map_of (dict_set k v d) = (map_of d)(k \<mapsto> v)"
  by (induction d) (auto simp: fun_eq_iff)

lemma dict_set_fresh: "k \<notin> fst ` set d \<Longrightarrow> dict_set k v d = d @ [(k, v)]"
  by (induction d) auto

lemma dict_update_fresh:
  "distinct (map fst e) \<Longrightarrow> fst ` set d \<inter> fst ` set e = {} \<Longrightarrow> dict_update d e = d @ e"
proof (induction e arbitrary: d)
  case Nil
  then show ?case by (simp add: dict_update_def)
next
  case (Cons kv e)
  have fresh: "fst kv \<notin> fst ` set d" using Cons.prems(2) by auto
  have "dict_update d (kv # e) = dict_update (dict_set (fst kv) (snd kv) d) e"
    by (simp add: dict_update_def)
  also have "\<dots> = dict_update (d @ [kv]) e"
    using dict_set_fresh[OF fresh] by simp
  also have "\<dots> = (d @ [kv]) @ e"
  proof (rule Cons.IH)
    show "distinct (map fst e)" using Cons.prems(1) by simp
    show "fst ` set (d @ [kv]) \<inter> fst ` set e = {}"
      using Cons.prems by auto
  qed
  finally show ?case by simp
qed

lemma dict_update_Cons: "dict_update d (kv # e) = dict_update (dict_set (fst kv) (snd kv) d) e"
  by (simp add: dict_update_def)

subsection \<open>The state after the calls of a log\<close>

lemma replay_state:
  "\<forall>ev\<in>set evs. ev_result ev \<noteq> None \<Longrightarrow> length evs \<le> length ts \<Longrightarrow>
   conversation_history (replay orch N ts evs st) =
     conversation_history st @ map (\<lambda>p. rec_of orch N (fst p) (snd p)) (zip ts evs) \<and>
   outputs (replay orch N ts evs st) =
     dict_update (outputs st) (map (\<lambda>p. (Turn (fst p), PDict (rec_of orch N (fst p) (snd p)))) (zip ts evs)) \<and>
   aggregation_inputs_st (replay orch N ts evs st) =
     dict_update (aggregation_inputs_st st) (map (\<lambda>p. (Turn (fst p), PDict (agg_of (snd p)))) (zip ts evs)) \<and>
   current_line_result (replay orch N ts evs st) =
     (if evs = [] then current_line_result st else ev_result (last evs)) \<and>
   length (batch_inputs (replay orch N ts evs st)) = length (batch_inputs st)"
proof (induction orch N ts evs st rule: replay.induct)
  case (1 orch N t ts p inp li rid clr evs st)
  then show ?case
    by (simp add: advance_def rec_of_def agg_of_def dict_update_Cons)
qed (auto simp: dict_update_def)

lemma zip_upt_nth:
  "length evs \<le> M \<Longrightarrow> map f (zip [0..<M] evs) = map (\<lambda>i. f (i, evs ! i)) [0..<length evs]"
  by (rule nth_equalityI) auto

subsection \<open>A run that nothing stops\<close>

lemma run_turn_no_prefail:
  assumes "0 < N" "N \<le> length (executor_proxies orch)" "N \<le> length (chat_group_roles orch)"
    and "\<forall>i<N. conversation_history_key E (chat_group_roles orch ! i) \<noteq> None"
    and "length (batch_inputs st) = N"
    and "run_turn E orch li rid N t st w = (r, w')"
  shows "w' \<noteq> w"
proof -
  have k: "t mod N < N" using assms(1) by simp
  have a: "\<not> length (executor_proxies orch) \<le> t mod N"
    "\<not> length (chat_group_roles orch) \<le> t mod N"
    "\<not> length (batch_inputs st) \<le> t mod N" "N \<noteq> 0"
    using k assms(1,2,3,5) by linarith+
  from k assms(4) obtain key where
    key: "conversation_history_key E (chat_group_roles orch ! (t mod N)) = Some key"
    by auto
  show ?thesis using assms(6)
    by (auto simp: run_turn_def Let_def a key split: sum.splits prod.splits)
qed

lemma turn_loop_complete:
  assumes "0 < N" "N \<le> length (executor_proxies orch)" "N \<le> length (chat_group_roles orch)"
    and "\<forall>i<N. conversation_history_key E (chat_group_roles orch ! i) \<noteq> None"
  shows "length (batch_inputs st) = N \<Longrightarrow>
    turn_loop E orch li rid N ts st w = (r, w @ evs) \<Longrightarrow>
    (\<forall>i<length evs. \<exists>clr. ev_result (evs ! i) = Some clr \<and>
        \<not> stop_hit (chat_group_roles orch ! (ts ! i mod N)) clr) \<Longrightarrow>
    length evs = length ts \<and> (\<exists>st'. r = Inr st')"
proof (induction ts arbitrary: st w evs)
  case Nil
  then show ?case by auto
next
  case (Cons t ts)
  obtain r1 w1 where step: "run_turn E orch li rid N t st w = (r1, w1)"
    by (cases "run_turn E orch li rid N t st w")
  have nw: "w1 \<noteq> w"
    by (rule run_turn_no_prefail[OF assms Cons.prems(1) step])
  from run_turn_cases[OF step] nw obtain inp out where
    w1: "w1 = w @ [ExecLine (executor_proxies orch ! (t mod N)) inp li rid out]"
    and out: "case out of Inl e \<Rightarrow> r1 = Inl e
             | Inr clr \<Rightarrow> r1 = Inr (advance orch N t inp clr st,
                    stop_hit (chat_group_roles orch ! (t mod N)) clr)"
    by blast
  let ?ev = "ExecLine (executor_proxies orch ! (t mod N)) inp li rid out"
  show ?case
  proof (cases out)
    case (Inl e)
    with out step w1 Cons.prems(2) have "evs = [?ev]" by auto
    with Cons.prems(3) Inl show ?thesis by auto
  next
    case (Inr clr)
    with out have r1: "r1 = Inr (advance orch N t inp clr st,
        stop_hit (chat_group_roles orch ! (t mod N)) clr)" by simp
    show ?thesis
    proof (cases "stop_hit (chat_group_roles orch ! (t mod N)) clr")
      case True
      with r1 step w1 Cons.prems(2) have "evs = [?ev]" by auto
      with Cons.prems(3) Inr True show ?thesis by auto
    next
      case False
      with r1 step w1 Cons.prems(2) have
        rec: "turn_loop E orch li rid N ts (advance orch N t inp clr st) (w @ [?ev]) = (r, w @ evs)"
        by auto
      from turn_loop_trace[OF rec] obtain evs' where "w @ evs = (w @ [?ev]) @ evs'"
        by blast
      then have evs: "evs = ?ev # evs'" by simp
      have len: "length (batch_inputs (advance orch N t inp clr st)) = N"
        using Cons.prems(1) by (simp add: advance_def)
      have rec': "turn_loop E orch li rid N ts (advance orch N t inp clr st) (w @ [?ev])
                    = (r, (w @ [?ev]) @ evs')"
        using rec evs by simp
      have hyp: "\<forall>i<length evs'. \<exists>clr. ev_result (evs' ! i) = Some clr \<and>
          \<not> stop_hit (chat_group_roles orch ! (ts ! i mod N)) clr"
      proof (intro allI impI)
        fix i assume "i < length evs'"
        then have "Suc i < length evs" using evs by simp
        with Cons.prems(3) have "\<exists>clr. ev_result (evs ! Suc i) = Some clr \<and>
          \<not> stop_hit (chat_group_roles orch ! ((t # ts) ! Suc i mod N)) clr" by blast
        then show "\<exists>clr. ev_result (evs' ! i) = Some clr \<and>
          \<not> stop_hit (chat_group_roles orch ! (ts ! i mod N)) clr"
          using evs by simp
      qed
      from Cons.IH[OF len rec' hyp] show ?thesis using evs by simp
    qed
  qed
qed

subsection \<open>Resolution of the inputs\<close>

lemma conversation_history_key_None:
  "conversation_history_key E r = None \<longleftrightarrow>
     CONVERSATION_HISTORY_EXPRESSION E \<notin> set (dict_values (inputs_mapping r))"
  by (force simp: conversation_history_key_def dict_values_def find_None_iff)

lemma process_batch_inputs_loop_Inr:
  "process_batch_inputs_loop E mlc inputs rs acc = Inr bis \<Longrightarrow>
   length bis = length acc + length rs \<and>
   (\<forall>r\<in>set rs. count_list (dict_values (inputs_mapping r)) (CONVERSATION_HISTORY_EXPRESSION E) = 1)"
proof (induction rs arbitrary: acc)
  case Nil
  then show ?case by simp
next
  case (Cons r rs)
  from Cons.prems obtain bi rbi where
    ok: "CONVERSATION_HISTORY_EXPRESSION E \<in> set (dict_values (inputs_mapping r))"
      "\<not> 1 < count_list (dict_values (inputs_mapping r)) (CONVERSATION_HISTORY_EXPRESSION E)"
    and rec: "process_batch_inputs_loop E mlc inputs rs (acc @ [rbi]) = Inr bis"
    by (auto split: if_splits sum.splits)
  from ok have "count_list (dict_values (inputs_mapping r)) (CONVERSATION_HISTORY_EXPRESSION E) = 1"
    using count_list_0_iff[of "dict_values (inputs_mapping r)" "CONVERSATION_HISTORY_EXPRESSION E"]
    by linarith
  with Cons.IH[OF rec] show ?case by simp
qed

lemma count_one_key:
  "count_list (dict_values (inputs_mapping r)) (CONVERSATION_HISTORY_EXPRESSION E) = 1 \<Longrightarrow>
   conversation_history_key E r \<noteq> None"
  using count_list_0_iff[of "dict_values (inputs_mapping r)" "CONVERSATION_HISTORY_EXPRESSION E"]
  by (simp add: conversation_history_key_None)

subsection \<open>The proxies of a constructed orchestrator\<close>

lemma create_executor_proxy_loop_Inr:
  "create_executor_proxy_loop E sto rs acc w = (Inr ps, w') \<Longrightarrow>
   \<exists>new. ps = acc @ new \<and> length new = length rs \<and>
     w' = w @ map (\<lambda>p. CreateProxy (fst p) (Inr (snd p))) (zip rs new)"
proof (induction rs arbitrary: acc w)
  case Nil
  then show ?case by simp
next
  case (Cons r rs)
  from Cons.prems obtain p where p: "proxy_create E w r sto = Inr p"
    and rec: "create_executor_proxy_loop E sto rs (acc @ [p]) (w @ [CreateProxy r (Inr p)]) = (Inr ps, w')"
    by (auto split: sum.splits)
  from Cons.IH[OF rec] obtain new where
    "ps = (acc @ [p]) @ new" "length new = length rs"
    "w' = (w @ [CreateProxy r (Inr p)]) @ map (\<lambda>p. CreateProxy (fst p) (Inr (snd p))) (zip rs new)"
    by blast
  then have "ps = acc @ (p # new) \<and> length (p # new) = length (r # rs) \<and>
     w' = w @ map (\<lambda>p. CreateProxy (fst p) (Inr (snd p))) (zip (r # rs) (p # new))"
    by simp
  then show ?case by blast
qed

lemma init_Inr:
  assumes "init E roles mt sto mlc w = (Inr orch, w')"
  shows "2 \<le> length roles \<and> chat_group_roles orch = roles \<and> max_turn orch = mt \<and>
    max_lines_count orch = mlc \<and> storage orch = sto \<and>
    length (executor_proxies orch) = length roles \<and>
    w' = w @ map (\<lambda>p. CreateProxy (fst p) (Inr (snd p))) (zip roles (executor_proxies orch))"
proof -
  from assms have n: "2 \<le> length roles"
    by (auto simp: init_def split: if_splits)
  from assms n obtain ps where
    c: "create_executor_proxy_loop E sto roles [] w = (Inr ps, w')"
    and o: "orch = \<lparr>storage = sto, max_turn = mt, chat_group_roles = roles,
                   max_lines_count = mlc, executor_proxies = ps\<rparr>"
    by (auto simp: init_def create_executor_proxy_def split: if_splits prod.splits sum.splits)
  from create_executor_proxy_loop_Inr[OF c] o n show ?thesis by auto
qed

subsection \<open>The outcome of scheduling a line\<close>

lemma schedule_line_runs_cases:
  assumes "schedule_line_runs E orch li inputs rid w = (r, w')"
  shows "(\<exists>e. r = Inl e \<and> w' = w) \<or>
    (\<exists>bis m r2. process_batch_inputs E orch inputs = Inr bis \<and> max_turn orch = Some m \<and>
       turn_loop E orch li rid (length (chat_group_roles orch)) [0..<nat m]
         \<lparr>batch_inputs = bis, conversation_history = [], outputs = [],
          aggregation_inputs_st = [], current_line_result = None\<rparr> w = (r2, w') \<and>
       (case r2 of
          Inl e \<Rightarrow> r = Inl e
        | Inr st \<Rightarrow>
            (case current_line_result st of
               None \<Rightarrow> r = Inl AttributeError
             | Some clr \<Rightarrow>
                 r = Inr \<lparr>output_d = dict_update (outputs st)
                                  [(Key (CONVERSATION_HISTORY_OUTPUT_KEY E),
                                    history_value (conversation_history st))],
                          aggregation_inputs = aggregation_inputs_st st,
                          node_run_infos = node_run_infos clr,
                          run_info = run_info clr\<rparr>)))"
  using assms
  by (auto simp: schedule_line_runs_def Let_def split: sum.splits option.splits prod.splits)

lemma schedule_line_runs_log:
  assumes "schedule_line_runs E orch li inputs rid w = (r, w')"
  shows "\<exists>evs. w' = w @ evs \<and>
     (evs \<noteq> [] \<longrightarrow> (\<exists>bis m. process_batch_inputs E orch inputs = Inr bis \<and> max_turn orch = Some m \<and>
        trace_ok E orch li rid (length (chat_group_roles orch)) [0..<nat m]
          \<lparr>batch_inputs = bis, conversation_history = [], outputs = [],
           aggregation_inputs_st = [], current_line_result = None\<rparr> evs))"
  using schedule_line_runs_cases[OF assms]
proof (elim disjE exE conjE)
  fix e assume "r = Inl e" "w' = w"
  then show ?thesis by simp
next
  fix bis m r2
  assume a: "process_batch_inputs E orch inputs = Inr bis" "max_turn orch = Some m"
    "turn_loop E orch li rid (length (chat_group_roles orch)) [0..<nat m]
         \<lparr>batch_inputs = bis, conversation_history = [], outputs = [],
          aggregation_inputs_st = [], current_line_result = None\<rparr> w = (r2, w')"
  from turn_loop_trace[OF a(3)] a(1,2) show ?thesis by blast
qed

lemma replay_upt:
  assumes "k \<le> length evs" "length evs \<le> M" "\<forall>i<k. ev_result (evs ! i) \<noteq> None"
  shows "conversation_history (replay orch N [0..<M] (take k evs) st) =
           conversation_history st @ map (\<lambda>i. rec_of orch N i (evs ! i)) [0..<k]"
    and "outputs (replay orch N [0..<M] (take k evs) st) =
           dict_update (outputs st) (map (\<lambda>i. (Turn i, PDict (rec_of orch N i (evs ! i)))) [0..<k])"
    and "aggregation_inputs_st (replay orch N [0..<M] (take k evs) st) =
           dict_update (aggregation_inputs_st st) (map (\<lambda>i. (Turn i, PDict (agg_of (evs ! i)))) [0..<k])"
    and "current_line_result (replay orch N [0..<M] (take k evs) st) =
           (if k = 0 then current_line_result st else ev_result (evs ! (k - 1)))"
proof -
  have len: "length (take k evs) = k" using assms(1) by simp
  have ok: "\<forall>ev\<in>set (take k evs). ev_result ev \<noteq> None"
    using assms(1,3) by (auto simp: in_set_conv_nth)
  have le: "length (take k evs) \<le> length [0..<M]" using assms(1,2) by simp
  have le': "length (take k evs) \<le> M" using assms(1,2) by simp
  note rs = replay_state[OF ok le, of orch N st]
  have z: "\<And>f. map f (zip [0..<M] (take k evs)) = map (\<lambda>i. f (i, evs ! i)) [0..<k]"
  proof -
    fix f :: "nat \<times> event \<Rightarrow> 'b"
    have "map f (zip [0..<M] (take k evs)) = map (\<lambda>i. f (i, take k evs ! i)) [0..<length (take k evs)]"
      by (rule zip_upt_nth[OF le'])
    also have "\<dots> = map (\<lambda>i. f (i, evs ! i)) [0..<k]"
      using len by (intro map_cong) auto
    finally show "map f (zip [0..<M] (take k evs)) = map (\<lambda>i. f (i, evs ! i)) [0..<k]" .
  qed
  show "conversation_history (replay orch N [0..<M] (take k evs) st) =
           conversation_history st @ map (\<lambda>i. rec_of orch N i (evs ! i)) [0..<k]"
    using rs z[of "\<lambda>p. rec_of orch N (fst p) (snd p)"] by simp
  show "outputs (replay orch N [0..<M] (take k evs) st) =
           dict_update (outputs st) (map (\<lambda>i. (Turn i, PDict (rec_of orch N i (evs ! i)))) [0..<k])"
    using rs z[of "\<lambda>p. (Turn (fst p), PDict (rec_of orch N (fst p) (snd p)))"] by simp
  show "aggregation_inputs_st (replay orch N [0..<M] (take k evs) st) =
           dict_update (aggregation_inputs_st st) (map (\<lambda>i. (Turn i, PDict (agg_of (evs ! i)))) [0..<k])"
    using rs z[of "\<lambda>p. (Turn (fst p), PDict (agg_of (snd p)))"] by simp
  show "current_line_result (replay orch N [0..<M] (take k evs) st) =
           (if k = 0 then current_line_result st else ev_result (evs ! (k - 1)))"
  proof (cases "k = 0")
    case True
    then show ?thesis by simp
  next
    case False
    then have ne: "take k evs \<noteq> []" using assms(1) by auto
    have "last (take k evs) = take k evs ! (length (take k evs) - 1)"
      using ne by (rule last_conv_nth)
    also have "\<dots> = evs ! (k - 1)"
      using False unfolding len by simp
    finally have "last (take k evs) = evs ! (k - 1)" .
    with ne have "take k evs \<noteq> []" "last (take k evs) = evs ! (k - 1)" by simp_all
    moreover note ne
    ultimately show ?thesis using rs False by simp
  qed
qed

lemma dict_update_turns:
  "dict_update [] (map (\<lambda>i. (Turn i, f i)) [0..<n]) = map (\<lambda>i. (Turn i, f i)) [0..<n]"
proof -
  have "map fst (map (\<lambda>i. (Turn i, f i)) [0..<n]) = map Turn [0..<n]" by simp
  moreover have "distinct (map Turn [0..<n])" by (simp add: distinct_map inj_on_def)
  ultimately have "distinct (map fst (map (\<lambda>i. (Turn i, f i)) [0..<n]))" by (simp add: comp_def)
  then show ?thesis using dict_update_fresh[of "map (\<lambda>i. (Turn i, f i)) [0..<n]" "[]"] by simp
qed

lemma dict_update_key:
  "dict_update (map (\<lambda>i. (Turn i, f i)) [0..<n]) [(Key K, v)] =
     map (\<lambda>i. (Turn i, f i)) [0..<n] @ [(Key K, v)]"
  by (rule dict_update_fresh) auto

lemma schedule_line_runs_Inr_cases:
  assumes "schedule_line_runs E orch li inputs rid w = (Inr lr, w')"
  shows "\<exists>bis m st clr. process_batch_inputs E orch inputs = Inr bis \<and> max_turn orch = Some m \<and>
       turn_loop E orch li rid (length (chat_group_roles orch)) [0..<nat m]
         \<lparr>batch_inputs = bis, conversation_history = [], outputs = [],
          aggregation_inputs_st = [], current_line_result = None\<rparr> w = (Inr st, w') \<and>
       current_line_result st = Some clr \<and>
       lr = \<lparr>output_d = dict_update (outputs st)
                                  [(Key (CONVERSATION_HISTORY_OUTPUT_KEY E),
                                    history_value (conversation_history st))],
                          aggregation_inputs = aggregation_inputs_st st,
                          node_run_infos = node_run_infos clr,
                          run_info = run_info clr\<rparr>"
  using assms
  by (auto simp: schedule_line_runs_def Let_def split: sum.splits option.splits prod.splits)

lemma schedule_line_runs_Inr:
  assumes "schedule_line_runs E orch li inputs rid w = (Inr lr, w')"
  shows "\<exists>evs clr m. w' = w @ evs \<and> evs \<noteq> [] \<and> max_turn orch = Some m \<and> length evs \<le> nat m \<and>
     (\<forall>ev\<in>set evs. ev_result ev \<noteq> None) \<and> ev_result (last evs) = Some clr \<and>
     lr = \<lparr>output_d = map (\<lambda>t. (Turn t, PDict (turn_record orch evs t))) [0..<length evs] @
                        [(Key (CONVERSATION_HISTORY_OUTPUT_KEY E),
                          history_value (map (turn_record orch evs) [0..<length evs]))],
           aggregation_inputs = map (\<lambda>t. (Turn t, PDict (turn_aggregation evs t))) [0..<length evs],
           node_run_infos = node_run_infos clr,
           run_info = run_info clr\<rparr>"
proof -
  let ?N = "length (chat_group_roles orch)"
  let ?st0 = "\<lparr>batch_inputs = bis, conversation_history = [], outputs = [],
          aggregation_inputs_st = [], current_line_result = None\<rparr>"
  from schedule_line_runs_Inr_cases[OF assms] obtain bis m st clr where
    m: "max_turn orch = Some m"
    and loop: "turn_loop E orch li rid ?N [0..<nat m]
         \<lparr>batch_inputs = bis, conversation_history = [], outputs = [],
          aggregation_inputs_st = [], current_line_result = None\<rparr> w = (Inr st, w')"
    and clr: "current_line_result st = Some clr"
    and lr: "lr = \<lparr>output_d = dict_update (outputs st)
                                  [(Key (CONVERSATION_HISTORY_OUTPUT_KEY E),
                                    history_value (conversation_history st))],
                          aggregation_inputs = aggregation_inputs_st st,
                          node_run_infos = node_run_infos clr,
                          run_info = run_info clr\<rparr>"
    by blast
  from turn_loop_trace[OF loop] obtain evs where
    w': "w' = w @ evs"
    and tr: "trace_ok E orch li rid ?N [0..<nat m]
         \<lparr>batch_inputs = bis, conversation_history = [], outputs = [],
          aggregation_inputs_st = [], current_line_result = None\<rparr> evs"
    and st: "st = replay orch ?N [0..<nat m] evs
         \<lparr>batch_inputs = bis, conversation_history = [], outputs = [],
          aggregation_inputs_st = [], current_line_result = None\<rparr>"
    and ok: "\<forall>ev\<in>set evs. ev_result ev \<noteq> None"
    by blast
  from tr have len: "length evs \<le> nat m" by (simp add: trace_ok_def)
  have ok': "\<forall>i<length evs. ev_result (evs ! i) \<noteq> None" using ok by simp
  note ru = replay_upt[OF le_refl len ok', of orch ?N
      "\<lparr>batch_inputs = bis, conversation_history = [], outputs = [],
          aggregation_inputs_st = [], current_line_result = None\<rparr>"]
  have h: "conversation_history st = map (turn_record orch evs) [0..<length evs]"
    using ru(1) st by (simp add: turn_record_def)
  have o: "outputs st = map (\<lambda>t. (Turn t, PDict (turn_record orch evs t))) [0..<length evs]"
    using ru(2) st by (simp add: turn_record_def dict_update_turns)
  have a: "aggregation_inputs_st st = map (\<lambda>t. (Turn t, PDict (turn_aggregation evs t))) [0..<length evs]"
    using ru(3) st by (simp add: turn_aggregation_def dict_update_turns)
  have c: "current_line_result st = (if length evs = 0 then None else ev_result (evs ! (length evs - 1)))"
    using ru(4) st by simp
  from c clr have ne: "evs \<noteq> []" by (auto split: if_splits)
  with c clr have last: "ev_result (last evs) = Some clr" by (simp add: last_conv_nth)
  have "lr = \<lparr>output_d = map (\<lambda>t. (Turn t, PDict (turn_record orch evs t))) [0..<length evs] @
                        [(Key (CONVERSATION_HISTORY_OUTPUT_KEY E),
                          history_value (map (turn_record orch evs) [0..<length evs]))],
           aggregation_inputs = map (\<lambda>t. (Turn t, PDict (turn_aggregation evs t))) [0..<length evs],
           node_run_infos = node_run_infos clr,
           run_info = run_info clr\<rparr>"
    unfolding lr h o a by (simp add: dict_update_key)
  with w' ne m len ok last show ?thesis by blast
qed

lemma map_of_turns:
  "map_of (map (\<lambda>t. (Turn t, g t)) [0..<n]) (Turn t) = (if t < n then Some (g t) else None)"
  "map_of (map (\<lambda>t. (Turn t, g t)) [0..<n]) (Key K) = None"
  by (induction n) (auto simp: map_add_def less_Suc_eq)

lemma schedule_line_runs_loop:
  assumes "process_batch_inputs E orch inputs = Inr bis" "max_turn orch = Some m"
    and "schedule_line_runs E orch li inputs rid w = (r, w')"
  shows "\<exists>r2. turn_loop E orch li rid (length (chat_group_roles orch)) [0..<nat m]
         \<lparr>batch_inputs = bis, conversation_history = [], outputs = [],
          aggregation_inputs_st = [], current_line_result = None\<rparr> w = (r2, w')"
  using assms
  by (auto simp: schedule_line_runs_def Let_def split: sum.splits option.splits prod.splits)

subsection \<open>A mapping that is not valid\<close>

lemma process_batch_inputs_loop_bad:
  assumes "\<exists>cr\<in>set rs. count_list (dict_values (inputs_mapping cr)) (CONVERSATION_HISTORY_EXPRESSION E) \<noteq> 1"
  shows "\<exists>e. process_batch_inputs_loop E mlc inputs rs acc = Inl e \<and>
    ((\<exists>cr\<in>set rs. count_list (dict_values (inputs_mapping cr)) (CONVERSATION_HISTORY_EXPRESSION E) = 0 \<and>
         e = MissingConversationHistoryExpression (role cr) (name cr)) \<or>
     (\<exists>cr\<in>set rs. 1 < count_list (dict_values (inputs_mapping cr)) (CONVERSATION_HISTORY_EXPRESSION E) \<and>
         e = MultipleConversationHistoryInputsMapping (role cr) (name cr)) \<or>
     (\<exists>cr\<in>set rs.
         process_batch_inputs_line E (working_dir cr) (flow_inputs cr) mlc inputs (inputs_mapping cr) = Inl e \<or>
         (\<exists>bi. process_batch_inputs_line E (working_dir cr) (flow_inputs cr) mlc inputs (inputs_mapping cr) = Inr bi \<and>
               apply_default_value_for_input E (flow_inputs cr) bi = Inl e)))"
  using assms
proof (induction rs arbitrary: acc)
  case Nil
  then show ?case by simp
next
  case (Cons cr rs)
  let ?c = "count_list (dict_values (inputs_mapping cr)) (CONVERSATION_HISTORY_EXPRESSION E)"
  consider (zero) "?c = 0" | (many) "1 < ?c" | (one) "?c = 1" by linarith
  then show ?case
  proof cases
    case zero
    then have "CONVERSATION_HISTORY_EXPRESSION E \<notin> set (dict_values (inputs_mapping cr))"
      by (simp add: count_list_0_iff)
    then have "process_batch_inputs_loop E mlc inputs (cr # rs) acc =
        Inl (MissingConversationHistoryExpression (role cr) (name cr))" by simp
    with zero show ?thesis by auto
  next
    case many
    then have "CONVERSATION_HISTORY_EXPRESSION E \<in> set (dict_values (inputs_mapping cr))"
      using count_list_0_iff[of "dict_values (inputs_mapping cr)" "CONVERSATION_HISTORY_EXPRESSION E"]
      by auto
    with many have "process_batch_inputs_loop E mlc inputs (cr # rs) acc =
        Inl (MultipleConversationHistoryInputsMapping (role cr) (name cr))" by simp
    with many show ?thesis by auto
  next
    case one
    then have inn: "CONVERSATION_HISTORY_EXPRESSION E \<in> set (dict_values (inputs_mapping cr))"
      using count_list_0_iff[of "dict_values (inputs_mapping cr)" "CONVERSATION_HISTORY_EXPRESSION E"]
      by auto
    from one Cons.prems have bad: "\<exists>cr\<in>set rs.
        count_list (dict_values (inputs_mapping cr)) (CONVERSATION_HISTORY_EXPRESSION E) \<noteq> 1"
      by auto
    show ?thesis
    proof (cases "process_batch_inputs_line E (working_dir cr) (flow_inputs cr) mlc inputs (inputs_mapping cr)")
      case (Inl e)
      with inn one have "process_batch_inputs_loop E mlc inputs (cr # rs) acc = Inl e" by simp
      with Inl show ?thesis by auto
    next
      case (Inr bi)
      note bi = Inr
      show ?thesis
      proof (cases "apply_default_value_for_input E (flow_inputs cr) bi")
        case (Inl e)
        with inn one bi have "process_batch_inputs_loop E mlc inputs (cr # rs) acc = Inl e" by simp
        with Inl bi show ?thesis by auto
      next
        case (Inr rbi)
        with inn one bi have eq: "process_batch_inputs_loop E mlc inputs (cr # rs) acc =
            process_batch_inputs_loop E mlc inputs rs (acc @ [rbi])" by simp
        from Cons.IH[OF bad, of "acc @ [rbi]"] show ?thesis unfolding eq by auto
      qed
    qed
  qed
qed

subsection \<open>The log of a destruction\<close>

lemma destroy_loop_log:
  "destroy_loop E ps w = (r, w') \<Longrightarrow>
   (r = Inr () \<and> w' = w @ map (\<lambda>p. DestroyProxy p None) ps) \<or>
   (\<exists>n e. n < length ps \<and> r = Inl e \<and>
      w' = w @ map (\<lambda>p. DestroyProxy p None) (take n ps) @ [DestroyProxy (ps ! n) (Some e)])"
proof (induction ps arbitrary: w)
  case Nil
  then show ?case by auto
next
  case (Cons p ps)
  show ?case
  proof (cases "proxy_destroy E w p")
    case (Some e)
    with Cons.prems have "r = Inl e" "w' = w @ [DestroyProxy p (Some e)]" by auto
    then have "0 < length (p # ps) \<and> r = Inl e \<and>
      w' = w @ map (\<lambda>p. DestroyProxy p None) (take 0 (p # ps)) @ [DestroyProxy ((p # ps) ! 0) (Some e)]"
      by simp
    then show ?thesis by blast
  next
    case None
    with Cons.prems have rec: "destroy_loop E ps (w @ [DestroyProxy p None]) = (r, w')" by simp
    from Cons.IH[OF rec] show ?thesis
    proof (elim disjE exE conjE)
      assume "r = Inr ()" "w' = (w @ [DestroyProxy p None]) @ map (\<lambda>p. DestroyProxy p None) ps"
      then show ?thesis by simp
    next
      fix n e
      assume "n < length ps" "r = Inl e"
        "w' = (w @ [DestroyProxy p None]) @ map (\<lambda>p. DestroyProxy p None) (take n ps) @
              [DestroyProxy (ps ! n) (Some e)]"
      then have "Suc n < length (p # ps) \<and> r = Inl e \<and>
        w' = w @ map (\<lambda>p. DestroyProxy p None) (take (Suc n) (p # ps)) @
              [DestroyProxy ((p # ps) ! Suc n) (Some e)]"
        by simp
      then show ?thesis by blast
    qed
  qed
qed

subsection \<open>Updating a dictionary with another\<close>

lemma keys_dict_set:
  "map fst (dict_set k v d) = (if k \<in> fst ` set d then map fst d else map fst d @ [k])"
  by (induction d) auto

lemma distinct_dict_set: "distinct (map fst d) \<Longrightarrow> distinct (map fst (dict_set k v d))"
  by (simp add: keys_dict_set)

lemma distinct_dict_update: "distinct (map fst d) \<Longrightarrow> distinct (map fst (dict_update d e))"
proof (induction e arbitrary: d)
  case Nil
  then show ?case by (simp add: dict_update_def)
next
  case (Cons kv e)
  from Cons.IH[OF distinct_dict_set[OF Cons.prems, of "fst kv" "snd kv"]]
  show ?case by (simp add: dict_update_Cons)
qed

lemma map_of_dict_update:
  "distinct (map fst e) \<Longrightarrow> map_of (dict_update d e) = map_of d ++ map_of e"
proof (induction e arbitrary: d)
  case Nil
  then show ?case by (simp add: dict_update_def)
next
  case (Cons kv e)
  from Cons.prems have d: "distinct (map fst e)" and nk: "fst kv \<notin> fst ` set e" by auto
  from nk have none: "map_of e (fst kv) = None" by (simp add: map_of_eq_None_iff)
  have "map_of (dict_update d (kv # e)) = map_of (dict_set (fst kv) (snd kv) d) ++ map_of e"
    using Cons.IH[OF d] by (simp add: dict_update_Cons)
  also have "\<dots> = (map_of d)(fst kv \<mapsto> snd kv) ++ map_of e"
    by (simp add: map_of_dict_set)
  also have "\<dots> = map_of d ++ map_of (kv # e)"
    using none by (cases kv) (auto simp: fun_eq_iff map_add_def split: option.splits)
  finally show ?case .
qed

subsection \<open>Executors that leave the history list alone\<close>

text \<open>
  With such executors the loop over the shared list is the loop of \<open>run_turn\<close>, and the
  history of a run is read off its log: the list handed to turn \<open>k\<close> is the list of the
  records of the turns before it.
\<close>

lemma run_turn_shared_unchanged:
  assumes "\<forall>w p inp li rid h. left w p inp li rid h = h"
  shows "run_turn_shared E left orch li rid N t st w = run_turn E orch li rid N t st w"
proof -
  have "left = (\<lambda>w p inp li rid h. h)" using assms by (intro ext) simp
  then show ?thesis by (simp add: run_turn_shared_def run_turn_def)
qed

lemma turn_loop_shared_unchanged:
  assumes "\<forall>w p inp li rid h. left w p inp li rid h = h"
  shows "turn_loop_shared E left orch li rid N ts st w = turn_loop E orch li rid N ts st w"
  by (induction ts arbitrary: st w)
    (auto simp: run_turn_shared_unchanged[OF assms] split: prod.splits sum.splits)

lemma schedule_line_runs_shared_unchanged:
  assumes "\<forall>w p inp li rid h. left w p inp li rid h = h"
  shows "schedule_line_runs_shared E left orch li inputs rid w =
         schedule_line_runs E orch li inputs rid w"
  by (auto simp: schedule_line_runs_shared_def schedule_line_runs_def
      turn_loop_shared_unchanged[OF assms] split: sum.splits option.splits)

lemma schedule_line_runs_history:
  assumes run: "schedule_line_runs E orch li inputs rid w = (r, w')"
  shows "\<exists>evs. w' = w @ evs \<and>
    (\<forall>k<length evs. \<exists>key p inp out.
        conversation_history_key E
          (chat_group_roles orch ! (k mod length (chat_group_roles orch))) = Some key \<and>
        evs ! k = ExecLine p inp li rid out \<and>
        map_of inp key = Some (history_value (map (turn_record orch evs) [0..<k])) \<and>
        (\<forall>t<k. \<exists>clr. ev_result (evs ! t) = Some clr \<and>
           turn_record orch evs t =
             dict_update
               [(''role'', PStr (role (chat_group_roles orch ! (t mod length (chat_group_roles orch)))))]
               (output_d clr))) \<and>
    (\<forall>lr. r = Inr lr \<longrightarrow>
        map_of (output_d lr) (Key (CONVERSATION_HISTORY_OUTPUT_KEY E)) =
          Some (history_value (map (turn_record orch evs) [0..<length evs])) \<and>
        (\<forall>t<length evs. \<exists>clr. ev_result (evs ! t) = Some clr \<and>
           turn_record orch evs t =
             dict_update
               [(''role'', PStr (role (chat_group_roles orch ! (t mod length (chat_group_roles orch)))))]
               (output_d clr)))"
proof -
  let ?N = "length (chat_group_roles orch)"
  from schedule_line_runs_log[OF run] obtain evs where
    w': "w' = w @ evs"
    and tr: "evs \<noteq> [] \<longrightarrow> (\<exists>bis m. process_batch_inputs E orch inputs = Inr bis \<and> max_turn orch = Some m \<and>
        trace_ok E orch li rid ?N [0..<nat m]
          \<lparr>batch_inputs = bis, conversation_history = [], outputs = [],
           aggregation_inputs_st = [], current_line_result = None\<rparr> evs)"
    by blast
  have rec: "\<And>t clr. ev_result (evs ! t) = Some clr \<Longrightarrow>
      turn_record orch evs t =
        dict_update [(''role'', PStr (role (chat_group_roles orch ! (t mod ?N))))] (output_d clr)"
    by (simp add: turn_record_def rec_of_def)
  have calls: "\<forall>k<length evs. \<exists>key p inp out.
        conversation_history_key E (chat_group_roles orch ! (k mod ?N)) = Some key \<and>
        evs ! k = ExecLine p inp li rid out \<and>
        map_of inp key = Some (history_value (map (turn_record orch evs) [0..<k])) \<and>
        (\<forall>t<k. \<exists>clr. ev_result (evs ! t) = Some clr \<and>
           turn_record orch evs t =
             dict_update [(''role'', PStr (role (chat_group_roles orch ! (t mod ?N))))] (output_d clr))"
  proof (intro allI impI)
    fix k assume k: "k < length evs"
    then have "evs \<noteq> []" by auto
    with tr obtain bis m where
      t: "trace_ok E orch li rid ?N [0..<nat m]
          \<lparr>batch_inputs = bis, conversation_history = [], outputs = [],
           aggregation_inputs_st = [], current_line_result = None\<rparr> evs"
      by blast
    let ?st0 = "\<lparr>batch_inputs = bis, conversation_history = [], outputs = [],
           aggregation_inputs_st = [], current_line_result = None\<rparr>"
    from t have len: "length evs \<le> nat m" by (simp add: trace_ok_def)
    with k have kk: "[0..<nat m] ! k = k" by simp
    from t k obtain inp out where
      ti: "turn_input E orch ?N ([0..<nat m] ! k) (replay orch ?N [0..<nat m] (take k evs) ?st0) = Some inp"
      and ev: "evs ! k = ExecLine (executor_proxies orch ! ([0..<nat m] ! k mod ?N)) inp li rid out"
      unfolding trace_ok_def by blast
    have prev: "\<forall>i<k. \<exists>clr. ev_result (evs ! i) = Some clr"
    proof (intro allI impI)
      fix i assume "i < k"
      with k have "Suc i < length evs" by simp
      with t show "\<exists>clr. ev_result (evs ! i) = Some clr"
        unfolding trace_ok_def by blast
    qed
    then have prev': "\<forall>i<k. ev_result (evs ! i) \<noteq> None" by auto
    have kle: "k \<le> length evs" using k by simp
    have h: "conversation_history (replay orch ?N [0..<nat m] (take k evs) ?st0) =
        map (turn_record orch evs) [0..<k]"
      using replay_upt(1)[OF kle len prev', of orch ?N ?st0] by (simp add: turn_record_def)
    from ti obtain key where
      key: "conversation_history_key E (chat_group_roles orch ! (k mod ?N)) = Some key"
      and inp: "inp = dict_set key (history_value (map (turn_record orch evs) [0..<k]))
                  (batch_inputs (replay orch ?N [0..<nat m] (take k evs) ?st0) ! (k mod ?N))"
      unfolding turn_input_def kk h by (auto split: option.splits)
    have "map_of inp key = Some (history_value (map (turn_record orch evs) [0..<k]))"
      unfolding inp by (simp add: map_of_dict_set)
    moreover have "\<forall>t<k. \<exists>clr. ev_result (evs ! t) = Some clr \<and>
           turn_record orch evs t =
             dict_update [(''role'', PStr (role (chat_group_roles orch ! (t mod ?N))))] (output_d clr)"
      using prev rec by blast
    ultimately show "\<exists>key p inp out.
        conversation_history_key E (chat_group_roles orch ! (k mod ?N)) = Some key \<and>
        evs ! k = ExecLine p inp li rid out \<and>
        map_of inp key = Some (history_value (map (turn_record orch evs) [0..<k])) \<and>
        (\<forall>t<k. \<exists>clr. ev_result (evs ! t) = Some clr \<and>
           turn_record orch evs t =
             dict_update [(''role'', PStr (role (chat_group_roles orch ! (t mod ?N))))] (output_d clr))"
      using key ev by blast
  qed
  have final: "\<forall>lr. r = Inr lr \<longrightarrow>
        map_of (output_d lr) (Key (CONVERSATION_HISTORY_OUTPUT_KEY E)) =
          Some (history_value (map (turn_record orch evs) [0..<length evs])) \<and>
        (\<forall>t<length evs. \<exists>clr. ev_result (evs ! t) = Some clr \<and>
           turn_record orch evs t =
             dict_update [(''role'', PStr (role (chat_group_roles orch ! (t mod ?N))))] (output_d clr))"
  proof (intro allI impI)
    fix lr assume "r = Inr lr"
    with run have run': "schedule_line_runs E orch li inputs rid w = (Inr lr, w')" by simp
    from schedule_line_runs_Inr[OF run'] obtain evs' where
      e: "w' = w @ evs'" and ok: "\<forall>ev\<in>set evs'. ev_result ev \<noteq> None"
      and out: "output_d lr = map (\<lambda>t. (Turn t, PDict (turn_record orch evs' t))) [0..<length evs'] @
                        [(Key (CONVERSATION_HISTORY_OUTPUT_KEY E),
                          history_value (map (turn_record orch evs') [0..<length evs']))]"
      by auto
    from e w' have ee: "evs' = evs" by simp
    have "map_of (output_d lr) (Key (CONVERSATION_HISTORY_OUTPUT_KEY E)) =
          Some (history_value (map (turn_record orch evs) [0..<length evs]))"
      unfolding out ee by (simp add: map_of_turns map_add_def)
    moreover have "\<forall>t<length evs. \<exists>clr. ev_result (evs ! t) = Some clr \<and>
           turn_record orch evs t =
             dict_update [(''role'', PStr (role (chat_group_roles orch ! (t mod ?N))))] (output_d clr)"
    proof (intro allI impI)
      fix t assume "t < length evs"
      with ok ee have "ev_result (evs ! t) \<noteq> None" by simp
      then obtain clr where "ev_result (evs ! t) = Some clr" by auto
      with rec show "\<exists>clr. ev_result (evs ! t) = Some clr \<and>
           turn_record orch evs t =
             dict_update [(''role'', PStr (role (chat_group_roles orch ! (t mod ?N))))] (output_d clr)"
        by blast
    qed
    ultimately show "map_of (output_d lr) (Key (CONVERSATION_HISTORY_OUTPUT_KEY E)) =
          Some (history_value (map (turn_record orch evs) [0..<length evs])) \<and>
        (\<forall>t<length evs. \<exists>clr. ev_result (evs ! t) = Some clr \<and>
           turn_record orch evs t =
             dict_update [(''role'', PStr (role (chat_group_roles orch ! (t mod ?N))))] (output_d clr))"
      by blast
  qed
  from w' calls final show ?thesis by blast
qed

lemma schedule_line_runs_round_trip:
  assumes "schedule_line_runs E orch li inputs rid w = (Inr lr, w')"
  shows "\<exists>recs. length w' = length w + length recs \<and>
     map_of (output_d lr) (Key (CONVERSATION_HISTORY_OUTPUT_KEY E)) = Some (PList (map PDict recs)) \<and>
     (\<forall>t<length recs. map_of (output_d lr) (Turn t) = Some (PDict (recs ! t))) \<and>
     (\<forall>t. length recs \<le> t \<longrightarrow> map_of (output_d lr) (Turn t) = None)"
proof -
  from schedule_line_runs_Inr[OF assms] obtain evs where
    w': "w' = w @ evs"
    and out: "output_d lr = map (\<lambda>t. (Turn t, PDict (turn_record orch evs t))) [0..<length evs] @
                        [(Key (CONVERSATION_HISTORY_OUTPUT_KEY E),
                          history_value (map (turn_record orch evs) [0..<length evs]))]"
    by auto
  let ?recs = "map (turn_record orch evs) [0..<length evs]"
  have "length w' = length w + length ?recs" using w' by simp
  moreover have "map_of (output_d lr) (Key (CONVERSATION_HISTORY_OUTPUT_KEY E)) = Some (PList (map PDict ?recs))"
    unfolding out by (simp add: map_of_turns map_add_def history_value_def)
  moreover have "\<forall>t<length ?recs. map_of (output_d lr) (Turn t) = Some (PDict (?recs ! t))"
    unfolding out by (simp add: map_of_turns map_add_def)
  moreover have "\<forall>t. length ?recs \<le> t \<longrightarrow> map_of (output_d lr) (Turn t) = None"
    unfolding out by (simp add: map_of_turns map_add_def)
  ultimately show ?thesis by blast
qed

subsection \<open>The concrete runs\<close>

text \<open>The concrete chat group, run by the simplifier on the definitions above.\<close>

lemma demo_run:
  "schedule_line_runs (demo_env demo_script) (demo_orch (Some 4)) 0 None None [] =
     (Inr demo_line_result, [] @ demo_log)"
  by code_simp

lemma leaves_unchanged_id: "\<forall>w p inp li rid h. leaves_unchanged w p inp li rid h = h"
  by (simp add: leaves_unchanged_def)

lemma demo_run_shared:
  "schedule_line_runs_shared (demo_env demo_script) leaves_unchanged (demo_orch (Some 4)) 0 None None [] =
     (Inr demo_line_result, [] @ demo_log)"
  by code_simp

lemma demo_init:
  "init (demo_env s) [role_A, role_B] mt PNone None [] =
     (Inr (demo_orch mt), [CreateProxy role_A (Inr 0), CreateProxy role_B (Inr 1)])"
  by (simp add: init_def create_executor_proxy_def demo_env_def demo_orch_def)

lemma demo_inputs:
  "process_batch_inputs (demo_env (\<lambda>n. ''hi'')) (demo_orch (Some 3)) None =
     Inr [[(''question'', PStr ''${data.question}''),
           (''history'', PStr ''${parent.conversation_history}'')],
          [(''chat'', PStr ''${parent.conversation_history}'')]]"
  by code_simp

lemma demo_run3:
  "schedule_line_runs (demo_env (\<lambda>n. ''hi'')) (demo_orch (Some 3)) 0 None None [] =
     (fst (schedule_line_runs (demo_env (\<lambda>n. ''hi'')) (demo_orch (Some 3)) 0 None None []),
      [] @ demo_log3)"
proof -
  have "snd (schedule_line_runs (demo_env (\<lambda>n. ''hi'')) (demo_orch (Some 3)) 0 None None []) = demo_log3"
    by code_simp
  then show ?thesis by (simp add: prod_eq_iff)
qed

lemma demo_log3_no_stop:
  "\<forall>t<length demo_log3. case ev_result (demo_log3 ! t) of
        None \<Rightarrow> False
      | Some clr \<Rightarrow> \<not> stop_hit ([role_A, role_B] ! (t mod length [role_A, role_B])) clr"
  by (simp add: demo_log3_def less_Suc_eq numeral_3_eq_3 stop_hit_def msg_result_def dict_values_def
      role_A_def role_B_def)

lemma demo_destroy:
  "destroy (demo_env demo_script) (demo_orch (Some 4)) [] =
     (Inr (), [] @ [DestroyProxy 0 None, DestroyProxy 1 None])"
  by code_simp

lemma demo_flow_outputs:
  "process_flow_outputs 0 role_A role_record_result [] [] [] =
     ([[(''role'', PStr ''system''), (''msg'', PStr ''hi'')]],
      [(Turn 0, PDict [(''role'', PStr ''system''), (''msg'', PStr ''hi'')])],
      [(Turn 0, PDict [])])"
  by code_simp

section \<open>Construction\<close>

text \<open>
  C4. Constructing the orchestrator with fewer than two roles (none or one) fails with
  \<open>InvalidChatRoleCount\<close>, and the log is returned as it was: no executor proxy has been
  created.
\<close>

theorem init_invalid_role_count:
  "length roles < 2 \<Longrightarrow>
   init E roles mt sto mlc w = (Inl (InvalidChatRoleCount (length roles)), w)"
  by (simp add: init_def)

theorem init_invalid_role_count_witness:
  "length [role_A] < 2 \<and>
   init (demo_env (\<lambda>n. ''hi'')) [role_A] (Some 4) PNone None [] =
     (Inl (InvalidChatRoleCount 1), [])"
  using init_invalid_role_count [of "[role_A]" "demo_env (\<lambda>n. ''hi'')" "Some 4" PNone None "[]"]
  by simp

section \<open>The stop signal\<close>

text \<open>
  C2. In a scheduling run whose calls to the executors are \<open>evs\<close> (the log of a run is
  always the log before it followed by its calls, \<open>schedule_line_runs_log\<close>): if the call
  of turn \<open>t\<close> returned a result one of whose output values equals the stop signal of the
  active role (the role at index \<open>t mod N\<close>), then \<open>evs\<close> has exactly \<open>t + 1\<close> calls: the
  loop ended after turn \<open>t\<close> and no further call was made for the line.
\<close>

theorem stop_signal_ends_run:
  assumes run: "schedule_line_runs E orch li inputs rid w = (r, w @ evs)"
    and t: "t < length evs"
    and res: "ev_result (evs ! t) = Some clr"
    and hit: "stop_hit (chat_group_roles orch ! (t mod length (chat_group_roles orch))) clr"
  shows "length evs = t + 1"
proof -
  from schedule_line_runs_log[OF run] t obtain bis m where
    tr: "trace_ok E orch li rid (length (chat_group_roles orch)) [0..<nat m]
          \<lparr>batch_inputs = bis, conversation_history = [], outputs = [],
           aggregation_inputs_st = [], current_line_result = None\<rparr> evs"
    by auto
  show ?thesis
  proof (rule ccontr)
    assume "length evs \<noteq> t + 1"
    with t have lt: "Suc t < length evs" by simp
    from tr have len: "length evs \<le> nat m" by (simp add: trace_ok_def)
    from tr lt obtain c where
      "ev_result (evs ! t) = Some c"
      "\<not> stop_hit (chat_group_roles orch ! ([0..<nat m] ! t mod length (chat_group_roles orch))) c"
      unfolding trace_ok_def by blast
    moreover have "[0..<nat m] ! t = t" using t len by simp
    ultimately show False using res hit by simp
  qed
qed

theorem stop_signal_ends_run_witness:
  "schedule_line_runs (demo_env demo_script) (demo_orch (Some 4)) 0 None None [] =
     (Inr demo_line_result, [] @ demo_log) \<and>
   1 < length demo_log \<and>
   ev_result (demo_log ! 1) = Some (msg_result ''bye'') \<and>
   stop_hit (chat_group_roles (demo_orch (Some 4)) ! (1 mod length (chat_group_roles (demo_orch (Some 4)))))
     (msg_result ''bye'') \<and>
   length demo_log = 1 + 1"
proof -
  have t: "1 < length demo_log" by (simp add: demo_log_def)
  have res: "ev_result (demo_log ! 1) = Some (msg_result ''bye'')" by (simp add: demo_log_def)
  have hit: "stop_hit (chat_group_roles (demo_orch (Some 4)) !
      (1 mod length (chat_group_roles (demo_orch (Some 4))))) (msg_result ''bye'')"
    by (simp add: demo_orch_def role_B_def stop_hit_def msg_result_def dict_values_def)
  from stop_signal_ends_run [OF demo_run t res hit] demo_run t res hit show ?thesis by simp
qed

section \<open>The Line Result\<close>

text \<open>
  C6, as the spec states it, does not hold. Take three turns and a second executor that
  clears the list it is handed. The Line Result binds the turn indices 0, 1 and 2 to the
  three records, and the reserved key to a history of two records: the record of turn 0 is
  not in it.
\<close>

theorem history_round_trip_cleared_counterexample:
  "fst (schedule_line_runs_shared (demo_env count_script) clearing_effect
          (demo_orch (Some 3)) 0 None None []) =
     Inr \<lparr>output_d =
            [(Turn 0, PDict [(''role'', PStr ''A''), (''msg'', PStr ''m0'')]),
             (Turn 1, PDict [(''role'', PStr ''B''), (''msg'', PStr ''m1'')]),
             (Turn 2, PDict [(''role'', PStr ''A''), (''msg'', PStr ''m2'')]),
             (Key ''conversation_history'',
              PList [PDict [(''role'', PStr ''B''), (''msg'', PStr ''m1'')],
                     PDict [(''role'', PStr ''A''), (''msg'', PStr ''m2'')]])],
          aggregation_inputs =
            [(Turn 0, PDict [(''size'', PInt 2)]),
             (Turn 1, PDict [(''size'', PInt 2)]),
             (Turn 2, PDict [(''size'', PInt 2)])],
          node_run_infos = [(''node'', PStr ''m2'')],
          run_info = PStr ''m2''\<rparr>"
  by code_simp

text \<open>
  C6, amended. Round trip, for executors that leave the history list as they are handed
  it: in the Line Result of a completed line, the value under the reserved
  conversation-history key is the list of the records \<open>recs\<close>, where \<open>recs ! t\<close> is what
  is stored under the turn index \<open>t\<close>, for every \<open>t\<close> below the number of executed turns
  (the number of calls added to the log), and no other turn index is bound: the history is
  the records of \<open>outputs[0]\<close>, \<open>outputs[1]\<close>, ... in execution order, none left out.
\<close>

theorem history_round_trip_unmutated:
  assumes unchanged: "\<forall>w p inp li rid h. left w p inp li rid h = h"
    and run: "schedule_line_runs_shared E left orch li inputs rid w = (Inr lr, w')"
  shows "\<exists>recs. length w' = length w + length recs \<and>
     map_of (output_d lr) (Key (CONVERSATION_HISTORY_OUTPUT_KEY E)) = Some (PList (map PDict recs)) \<and>
     (\<forall>t<length recs. map_of (output_d lr) (Turn t) = Some (PDict (recs ! t))) \<and>
     (\<forall>t. length recs \<le> t \<longrightarrow> map_of (output_d lr) (Turn t) = None)"
proof -
  from run have "schedule_line_runs E orch li inputs rid w = (Inr lr, w')"
    by (simp add: schedule_line_runs_shared_unchanged[OF unchanged])
  then show ?thesis by (rule schedule_line_runs_round_trip)
qed

theorem history_round_trip_unmutated_witness:
  "(\<forall>w p inp li rid h. leaves_unchanged w p inp li rid h = h) \<and>
   schedule_line_runs_shared (demo_env demo_script) leaves_unchanged (demo_orch (Some 4)) 0 None None [] =
     (Inr demo_line_result, [] @ demo_log) \<and>
   (\<exists>recs. length ([] @ demo_log) = length ([] :: event list) + length recs \<and>
     map_of (output_d demo_line_result)
       (Key (CONVERSATION_HISTORY_OUTPUT_KEY (demo_env demo_script))) = Some (PList (map PDict recs)) \<and>
     (\<forall>t<length recs. map_of (output_d demo_line_result) (Turn t) = Some (PDict (recs ! t))) \<and>
     (\<forall>t. length recs \<le> t \<longrightarrow> map_of (output_d demo_line_result) (Turn t) = None))"
  using history_round_trip_unmutated [OF leaves_unchanged_id demo_run_shared]
    leaves_unchanged_id demo_run_shared by blast



section \<open>The turns of a run\<close>

text \<open>
  C1. Let the orchestrator be constructed from \<open>roles\<close> with \<open>max_turn = M\<close> (so there are
  at least two roles) and let the inputs of every role resolve (so every mapping binds
  the conversation history exactly once). The calls \<open>evs\<close> that scheduling a line adds to
  the log are at most \<open>M\<close>; the call of turn \<open>t\<close> goes to the proxy at index \<open>t mod N\<close>,
  which is the proxy that the construction created for the role at index \<open>t mod N\<close>; and
  if every call returned a result none of whose output values is the stop signal of the
  active role, there are exactly \<open>M\<close> calls.
\<close>

theorem round_robin:
  assumes init: "init E roles (Some M) sto mlc w0 = (Inr orch, w1)"
    and pbi: "process_batch_inputs E orch inputs = Inr bis"
    and run: "schedule_line_runs E orch li inputs rid w = (r, w')"
  shows "\<exists>evs. w' = w @ evs \<and> length evs \<le> nat M \<and>
     (\<forall>t<length evs. \<exists>inp out.
        evs ! t = ExecLine (executor_proxies orch ! (t mod length roles)) inp li rid out \<and>
        CreateProxy (roles ! (t mod length roles))
          (Inr (executor_proxies orch ! (t mod length roles))) \<in> set w1) \<and>
     ((\<forall>t<length evs. case ev_result (evs ! t) of
                         None \<Rightarrow> False
                       | Some clr \<Rightarrow> \<not> stop_hit (roles ! (t mod length roles)) clr)
      \<longrightarrow> length evs = nat M)"
proof -
  let ?N = "length roles"
  let ?st0 = "\<lparr>batch_inputs = bis, conversation_history = [], outputs = [],
          aggregation_inputs_st = [], current_line_result = None\<rparr>"
  from init_Inr[OF init] have
    n2: "2 \<le> ?N" and roles: "chat_group_roles orch = roles" and mt: "max_turn orch = Some M"
    and mlc: "max_lines_count orch = mlc"
    and lp: "length (executor_proxies orch) = ?N"
    and w1: "w1 = w0 @ map (\<lambda>p. CreateProxy (fst p) (Inr (snd p))) (zip roles (executor_proxies orch))"
    by simp_all
  from schedule_line_runs_loop[OF pbi mt run] roles obtain r2 where
    loop: "turn_loop E orch li rid ?N [0..<nat M] ?st0 w = (r2, w')"
    by auto
  from turn_loop_trace[OF loop] obtain evs where
    w': "w' = w @ evs" and tr: "trace_ok E orch li rid ?N [0..<nat M] ?st0 evs"
    by blast
  from tr have len: "length evs \<le> nat M" by (simp add: trace_ok_def)
  have created: "\<And>i. i < ?N \<Longrightarrow> CreateProxy (roles ! i) (Inr (executor_proxies orch ! i)) \<in> set w1"
  proof -
    fix i assume i: "i < ?N"
    then have "(roles ! i, executor_proxies orch ! i) \<in> set (zip roles (executor_proxies orch))"
      using lp by (auto simp: in_set_zip)
    then show "CreateProxy (roles ! i) (Inr (executor_proxies orch ! i)) \<in> set w1"
      unfolding w1 by force
  qed
  have calls: "\<forall>t<length evs. \<exists>inp out.
        evs ! t = ExecLine (executor_proxies orch ! (t mod ?N)) inp li rid out \<and>
        CreateProxy (roles ! (t mod ?N)) (Inr (executor_proxies orch ! (t mod ?N))) \<in> set w1"
  proof (intro allI impI)
    fix t assume t: "t < length evs"
    with len have tt: "[0..<nat M] ! t = t" by simp
    from tr t obtain inp out where
      "evs ! t = ExecLine (executor_proxies orch ! ([0..<nat M] ! t mod ?N)) inp li rid out"
      unfolding trace_ok_def by blast
    then have "evs ! t = ExecLine (executor_proxies orch ! (t mod ?N)) inp li rid out"
      using tt by simp
    moreover have "0 < ?N" using n2 by linarith
    then have "t mod ?N < ?N" by (rule mod_less_divisor)
    from created[OF this] have "CreateProxy (roles ! (t mod ?N))
        (Inr (executor_proxies orch ! (t mod ?N))) \<in> set w1" .
    ultimately show "\<exists>inp out.
        evs ! t = ExecLine (executor_proxies orch ! (t mod ?N)) inp li rid out \<and>
        CreateProxy (roles ! (t mod ?N)) (Inr (executor_proxies orch ! (t mod ?N))) \<in> set w1"
      by blast
  qed
  have full: "(\<forall>t<length evs. case ev_result (evs ! t) of
                         None \<Rightarrow> False
                       | Some clr \<Rightarrow> \<not> stop_hit (roles ! (t mod ?N)) clr)
      \<longrightarrow> length evs = nat M"
  proof
    assume h: "\<forall>t<length evs. case ev_result (evs ! t) of
                         None \<Rightarrow> False
                       | Some clr \<Rightarrow> \<not> stop_hit (roles ! (t mod ?N)) clr"
    from pbi have pl: "process_batch_inputs_loop E mlc inputs roles [] = Inr bis"
      by (simp add: process_batch_inputs_def roles mlc)
    from process_batch_inputs_loop_Inr[OF pl] have lb: "length bis = ?N"
      and cnt: "\<forall>cr\<in>set roles. count_list (dict_values (inputs_mapping cr))
                  (CONVERSATION_HISTORY_EXPRESSION E) = 1"
      by simp_all
    have keys: "\<forall>i<?N. conversation_history_key E (chat_group_roles orch ! i) \<noteq> None"
      using cnt count_one_key roles by simp
    have hyp: "\<forall>i<length evs. \<exists>clr. ev_result (evs ! i) = Some clr \<and>
        \<not> stop_hit (chat_group_roles orch ! ([0..<nat M] ! i mod ?N)) clr"
    proof (intro allI impI)
      fix i assume i: "i < length evs"
      with len have "[0..<nat M] ! i = i" by simp
      moreover from h i have "case ev_result (evs ! i) of
                         None \<Rightarrow> False
                       | Some clr \<Rightarrow> \<not> stop_hit (roles ! (i mod ?N)) clr" by blast
      ultimately show "\<exists>clr. ev_result (evs ! i) = Some clr \<and>
        \<not> stop_hit (chat_group_roles orch ! ([0..<nat M] ! i mod ?N)) clr"
        using roles by (cases "ev_result (evs ! i)") auto
    qed
    have n0: "0 < ?N" using n2 by linarith
    have p1: "?N \<le> length (executor_proxies orch)" using lp by simp
    have p2: "?N \<le> length (chat_group_roles orch)" using roles by simp
    have lb': "length (batch_inputs ?st0) = ?N" using lb by simp
    from loop w' have loop': "turn_loop E orch li rid ?N [0..<nat M] ?st0 w = (r2, w @ evs)" by simp
    from turn_loop_complete[OF n0 p1 p2 keys lb' loop' hyp] show "length evs = nat M" by simp
  qed
  from w' len calls full show ?thesis by blast
qed

theorem round_robin_witness:
  "init (demo_env (\<lambda>n. ''hi'')) [role_A, role_B] (Some 3) PNone None [] =
     (Inr (demo_orch (Some 3)), [CreateProxy role_A (Inr 0), CreateProxy role_B (Inr 1)]) \<and>
   process_batch_inputs (demo_env (\<lambda>n. ''hi'')) (demo_orch (Some 3)) None =
     Inr [[(''question'', PStr ''${data.question}''),
           (''history'', PStr ''${parent.conversation_history}'')],
          [(''chat'', PStr ''${parent.conversation_history}'')]] \<and>
   (\<exists>evs. snd (schedule_line_runs (demo_env (\<lambda>n. ''hi'')) (demo_orch (Some 3)) 0 None None [])
            = [] @ evs \<and>
      (\<forall>t<length evs. \<exists>inp out.
         evs ! t = ExecLine (executor_proxies (demo_orch (Some 3)) ! (t mod length [role_A, role_B]))
                     inp 0 None out) \<and>
      (\<forall>t<length evs. case ev_result (evs ! t) of
           None \<Rightarrow> False
         | Some clr \<Rightarrow> \<not> stop_hit ([role_A, role_B] ! (t mod length [role_A, role_B])) clr) \<and>
      length evs = nat 3)"
proof -
  from round_robin [OF demo_init demo_inputs demo_run3] obtain evs where
    e: "[] @ demo_log3 = [] @ evs"
    and c: "\<forall>t<length evs. \<exists>inp out.
        evs ! t = ExecLine (executor_proxies (demo_orch (Some 3)) ! (t mod length [role_A, role_B]))
                    inp 0 None out \<and>
        CreateProxy ([role_A, role_B] ! (t mod length [role_A, role_B]))
          (Inr (executor_proxies (demo_orch (Some 3)) ! (t mod length [role_A, role_B])))
          \<in> set [CreateProxy role_A (Inr 0), CreateProxy role_B (Inr 1)]"
    and f: "(\<forall>t<length evs. case ev_result (evs ! t) of
                         None \<Rightarrow> False
                       | Some clr \<Rightarrow> \<not> stop_hit ([role_A, role_B] ! (t mod length [role_A, role_B])) clr)
      \<longrightarrow> length evs = nat 3"
    by blast
  from e have evs: "evs = demo_log3" by simp
  from f demo_log3_no_stop have "length demo_log3 = nat 3" unfolding evs by blast
  moreover from c have "\<forall>t<length demo_log3. \<exists>inp out.
        demo_log3 ! t = ExecLine (executor_proxies (demo_orch (Some 3)) ! (t mod length [role_A, role_B]))
                          inp 0 None out"
    unfolding evs by blast
  moreover have "snd (schedule_line_runs (demo_env (\<lambda>n. ''hi'')) (demo_orch (Some 3)) 0 None None [])
      = [] @ demo_log3"
    using demo_run3 by (metis snd_conv)
  ultimately have "\<exists>evs. snd (schedule_line_runs (demo_env (\<lambda>n. ''hi'')) (demo_orch (Some 3)) 0 None None [])
            = [] @ evs \<and>
      (\<forall>t<length evs. \<exists>inp out.
         evs ! t = ExecLine (executor_proxies (demo_orch (Some 3)) ! (t mod length [role_A, role_B]))
                     inp 0 None out) \<and>
      (\<forall>t<length evs. case ev_result (evs ! t) of
           None \<Rightarrow> False
         | Some clr \<Rightarrow> \<not> stop_hit ([role_A, role_B] ! (t mod length [role_A, role_B])) clr) \<and>
      length evs = nat 3"
    using demo_log3_no_stop by (intro exI[of _ demo_log3]) blast
  then show ?thesis using demo_init demo_inputs by blast
qed

text \<open>
  C3, as the spec states it, does not hold. Take three turns and a second executor that
  clears the list it is handed. The run makes three calls, and the history handed to the
  call of turn 2, after two completed turns, has one record, that of turn 1: the record of
  turn 0 has been removed.
\<close>

theorem history_cleared_counterexample:
  "length (snd (schedule_line_runs_shared (demo_env count_script) clearing_effect
             (demo_orch (Some 3)) 0 None None [])) = 3 \<and>
   snd (schedule_line_runs_shared (demo_env count_script) clearing_effect
          (demo_orch (Some 3)) 0 None None []) ! 2 =
     ExecLine 0
       [(''question'', PStr ''${data.question}''),
        (''history'', PList [PDict [(''role'', PStr ''B''), (''msg'', PStr ''m1'')]])]
       0 None (Inr (msg_result ''m2''))"
  by code_simp

text \<open>
  C3, amended. For executors that leave the history list as they are handed it, in a
  scheduling run whose calls are \<open>evs\<close>, for every \<open>k\<close>: the input of the call of turn \<open>k\<close>
  binds the role's conversation-history key to the history after \<open>k\<close> completed turns,
  which is the list of the \<open>k\<close> records of the turns \<open>0, ..., k - 1\<close>, in that order; the
  record of turn \<open>t\<close> is \<open>{"role": kind tag of the active role}\<close> updated with the output
  of the result of turn \<open>t\<close>. When the line completes, the history under the reserved key
  is the list of the records of all the turns. The record of a turn is the same in every
  later history, so the history only grows at its end.
\<close>

theorem history_records_unmutated:
  assumes unchanged: "\<forall>w p inp li rid h. left w p inp li rid h = h"
    and run: "schedule_line_runs_shared E left orch li inputs rid w = (r, w')"
  shows "\<exists>evs. w' = w @ evs \<and>
    (\<forall>k<length evs. \<exists>key p inp out.
        conversation_history_key E
          (chat_group_roles orch ! (k mod length (chat_group_roles orch))) = Some key \<and>
        evs ! k = ExecLine p inp li rid out \<and>
        map_of inp key = Some (history_value (map (turn_record orch evs) [0..<k])) \<and>
        (\<forall>t<k. \<exists>clr. ev_result (evs ! t) = Some clr \<and>
           turn_record orch evs t =
             dict_update
               [(''role'', PStr (role (chat_group_roles orch ! (t mod length (chat_group_roles orch)))))]
               (output_d clr))) \<and>
    (\<forall>lr. r = Inr lr \<longrightarrow>
        map_of (output_d lr) (Key (CONVERSATION_HISTORY_OUTPUT_KEY E)) =
          Some (history_value (map (turn_record orch evs) [0..<length evs])) \<and>
        (\<forall>t<length evs. \<exists>clr. ev_result (evs ! t) = Some clr \<and>
           turn_record orch evs t =
             dict_update
               [(''role'', PStr (role (chat_group_roles orch ! (t mod length (chat_group_roles orch)))))]
               (output_d clr)))"
proof -
  from run have "schedule_line_runs E orch li inputs rid w = (r, w')"
    by (simp add: schedule_line_runs_shared_unchanged[OF unchanged])
  then show ?thesis by (rule schedule_line_runs_history)
qed

theorem history_records_unmutated_witness:
  "(\<forall>w p inp li rid h. leaves_unchanged w p inp li rid h = h) \<and>
   schedule_line_runs_shared (demo_env demo_script) leaves_unchanged (demo_orch (Some 4)) 0 None None [] =
     (Inr demo_line_result, [] @ demo_log) \<and>
   (\<exists>evs. [] @ demo_log = [] @ evs \<and>
    (\<forall>k<length evs. \<exists>key p inp out.
        conversation_history_key (demo_env demo_script)
          (chat_group_roles (demo_orch (Some 4)) !
             (k mod length (chat_group_roles (demo_orch (Some 4))))) = Some key \<and>
        evs ! k = ExecLine p inp 0 None out \<and>
        map_of inp key = Some (history_value (map (turn_record (demo_orch (Some 4)) evs) [0..<k])) \<and>
        (\<forall>t<k. \<exists>clr. ev_result (evs ! t) = Some clr \<and>
           turn_record (demo_orch (Some 4)) evs t =
             dict_update
               [(''role'', PStr (role (chat_group_roles (demo_orch (Some 4)) !
                   (t mod length (chat_group_roles (demo_orch (Some 4)))))))]
               (output_d clr))) \<and>
    (\<forall>lr. Inr demo_line_result = (Inr lr :: error + outkey line_result) \<longrightarrow>
        map_of (output_d lr) (Key (CONVERSATION_HISTORY_OUTPUT_KEY (demo_env demo_script))) =
          Some (history_value (map (turn_record (demo_orch (Some 4)) evs) [0..<length evs])) \<and>
        (\<forall>t<length evs. \<exists>clr. ev_result (evs ! t) = Some clr \<and>
           turn_record (demo_orch (Some 4)) evs t =
             dict_update
               [(''role'', PStr (role (chat_group_roles (demo_orch (Some 4)) !
                   (t mod length (chat_group_roles (demo_orch (Some 4)))))))]
               (output_d clr))))"
  using history_records_unmutated [OF leaves_unchanged_id demo_run_shared]
    leaves_unchanged_id demo_run_shared by blast

text \<open>
  C10. If the output of a turn's result (a Python \<open>dict\<close>, so its keys are distinct) has
  a field named \<open>role\<close>, with value \<open>v\<close>, then in the record that \<open>_process_flow_outputs\<close>
  appends to the history and stores under the turn index, \<open>role\<close> is bound to \<open>v\<close>;
  unless \<open>v\<close> is the kind tag itself, the record does not carry the kind tag of the acting
  role.
\<close>

theorem role_key_overwritten:
  assumes "distinct (map fst (output_d clr))"
    and "map_of (output_d clr) ''role'' = Some v"
    and "process_flow_outputs index chat_role clr h outs aggs = (h', outs', aggs')"
  shows "\<exists>rec. h' = h @ [rec] \<and> map_of outs' (Turn index) = Some (PDict rec) \<and>
    map_of rec ''role'' = Some v \<and>
    (v \<noteq> PStr (role chat_role) \<longrightarrow> (''role'', PStr (role chat_role)) \<notin> set rec)"
proof -
  let ?rec = "dict_update [(''role'', PStr (role chat_role))] (output_d clr)"
  from assms(3) have h': "h' = h @ [?rec]"
    and outs': "outs' = dict_update outs [(Turn index, PDict ?rec)]"
    by (simp_all add: process_flow_outputs_def Let_def)
  have look: "map_of ?rec ''role'' = Some v"
    using assms(2) by (simp add: map_of_dict_update[OF assms(1)] map_add_def)
  have dist: "distinct (map fst ?rec)"
    by (rule distinct_dict_update) simp
  have "map_of outs' (Turn index) = Some (PDict ?rec)"
    unfolding outs' by (simp add: dict_update_def map_of_dict_set)
  moreover have "v \<noteq> PStr (role chat_role) \<longrightarrow> (''role'', PStr (role chat_role)) \<notin> set ?rec"
  proof (intro impI notI)
    assume ne: "v \<noteq> PStr (role chat_role)" and "(''role'', PStr (role chat_role)) \<in> set ?rec"
    with dist have "map_of ?rec ''role'' = Some (PStr (role chat_role))" by simp
    with look ne show False by simp
  qed
  ultimately show ?thesis using h' look by blast
qed

theorem role_key_overwritten_witness:
  "distinct (map fst (output_d role_record_result)) \<and>
   map_of (output_d role_record_result) ''role'' = Some (PStr ''system'') \<and>
   process_flow_outputs 0 role_A role_record_result [] [] [] =
     ([[(''role'', PStr ''system''), (''msg'', PStr ''hi'')]],
      [(Turn 0, PDict [(''role'', PStr ''system''), (''msg'', PStr ''hi'')])],
      [(Turn 0, PDict [])]) \<and>
   PStr ''system'' \<noteq> PStr (role role_A) \<and>
   (\<exists>rec. [[(''role'', PStr ''system''), (''msg'', PStr ''hi'')]] = [] @ [rec] \<and>
      map_of [(Turn 0, PDict [(''role'', PStr ''system''), (''msg'', PStr ''hi'')])] (Turn 0) =
        Some (PDict rec) \<and>
      map_of rec ''role'' = Some (PStr ''system'') \<and>
      (''role'', PStr (role role_A)) \<notin> set rec)"
proof -
  have d: "distinct (map fst (output_d role_record_result))"
    by (simp add: role_record_result_def)
  have m: "map_of (output_d role_record_result) ''role'' = Some (PStr ''system'')"
    by (simp add: role_record_result_def)
  have n: "PStr ''system'' \<noteq> PStr (role role_A)"
    by (simp add: role_A_def)
  from role_key_overwritten [OF d m demo_flow_outputs] d m n demo_flow_outputs
  show ?thesis by blast
qed

section \<open>Validation of the mappings\<close>

text \<open>
  C5. If the mapping of some role does not bind the conversation-history expression
  exactly once, scheduling a line fails and returns the log as it was: no executor has been
  called. The error is \<open>MissingConversationHistoryExpression\<close> for a role with no binding,
  or \<open>MultipleConversationHistoryInputsMapping\<close> for a role with more than one, or an error
  of the resolver for a role that comes before.
\<close>

theorem invalid_mapping_fails_before_any_turn:
  assumes "\<exists>cr\<in>set (chat_group_roles orch).
     count_list (dict_values (inputs_mapping cr)) (CONVERSATION_HISTORY_EXPRESSION E) \<noteq> 1"
  shows "\<exists>e. schedule_line_runs E orch li inputs rid w = (Inl e, w) \<and>
    ((\<exists>cr\<in>set (chat_group_roles orch).
         count_list (dict_values (inputs_mapping cr)) (CONVERSATION_HISTORY_EXPRESSION E) = 0 \<and>
         e = MissingConversationHistoryExpression (role cr) (name cr)) \<or>
     (\<exists>cr\<in>set (chat_group_roles orch).
         1 < count_list (dict_values (inputs_mapping cr)) (CONVERSATION_HISTORY_EXPRESSION E) \<and>
         e = MultipleConversationHistoryInputsMapping (role cr) (name cr)) \<or>
     (\<exists>cr\<in>set (chat_group_roles orch).
         process_batch_inputs_line E (working_dir cr) (flow_inputs cr) (max_lines_count orch) inputs
           (inputs_mapping cr) = Inl e \<or>
         (\<exists>bi. process_batch_inputs_line E (working_dir cr) (flow_inputs cr) (max_lines_count orch) inputs
                 (inputs_mapping cr) = Inr bi \<and>
               apply_default_value_for_input E (flow_inputs cr) bi = Inl e)))"
proof -
  from process_batch_inputs_loop_bad[OF assms, of "max_lines_count orch" inputs "[]"]
  obtain e where e: "process_batch_inputs E orch inputs = Inl e"
    and c: "(\<exists>cr\<in>set (chat_group_roles orch).
         count_list (dict_values (inputs_mapping cr)) (CONVERSATION_HISTORY_EXPRESSION E) = 0 \<and>
         e = MissingConversationHistoryExpression (role cr) (name cr)) \<or>
     (\<exists>cr\<in>set (chat_group_roles orch).
         1 < count_list (dict_values (inputs_mapping cr)) (CONVERSATION_HISTORY_EXPRESSION E) \<and>
         e = MultipleConversationHistoryInputsMapping (role cr) (name cr)) \<or>
     (\<exists>cr\<in>set (chat_group_roles orch).
         process_batch_inputs_line E (working_dir cr) (flow_inputs cr) (max_lines_count orch) inputs
           (inputs_mapping cr) = Inl e \<or>
         (\<exists>bi. process_batch_inputs_line E (working_dir cr) (flow_inputs cr) (max_lines_count orch) inputs
                 (inputs_mapping cr) = Inr bi \<and>
               apply_default_value_for_input E (flow_inputs cr) bi = Inl e))"
    unfolding process_batch_inputs_def by blast
  from e have "schedule_line_runs E orch li inputs rid w = (Inl e, w)"
    by (simp add: schedule_line_runs_def)
  with c show ?thesis by blast
qed

theorem invalid_mapping_fails_before_any_turn_witness:
  "(\<exists>cr\<in>set (chat_group_roles bad_orch).
      count_list (dict_values (inputs_mapping cr))
        (CONVERSATION_HISTORY_EXPRESSION (demo_env demo_script)) \<noteq> 1) \<and>
   (\<exists>e. schedule_line_runs (demo_env demo_script) bad_orch 0 None None [] = (Inl e, []))"
proof -
  have h: "\<exists>cr\<in>set (chat_group_roles bad_orch).
      count_list (dict_values (inputs_mapping cr))
        (CONVERSATION_HISTORY_EXPRESSION (demo_env demo_script)) \<noteq> 1"
    by (simp add: bad_orch_def demo_orch_def role_A_def role_C_def demo_env_def dict_values_def)
  from invalid_mapping_fails_before_any_turn [OF h, of 0 None None "[]"] h show ?thesis by blast
qed

section \<open>A budget of no turn\<close>

text \<open>
  C8, as the spec states it, does not hold: with two roles and \<open>max_turn = 0\<close> the
  construction succeeds, and scheduling a line runs no turn, leaves the loop and ends with
  the \<open>AttributeError\<close> of reading \<open>node_run_infos\<close> of \<open>None\<close>, which is not a
  configuration error.
\<close>

theorem max_turn_zero_counterexample:
  "init (demo_env demo_script) [role_A, role_B] (Some 0) PNone None [] =
     (Inr (demo_orch (Some 0)), [CreateProxy role_A (Inr 0), CreateProxy role_B (Inr 1)]) \<and>
   schedule_line_runs (demo_env demo_script) (demo_orch (Some 0)) 0 None None [] =
     (Inl AttributeError, [])"
  by code_simp

text \<open>
  C8, amended. The construction does not look at \<open>max_turn\<close>: where it succeeds for some
  value it succeeds for 0, with the same proxies. Scheduling a line with a budget of 0 (or
  less) calls no executor. A Line Result is returned only by a run with a positive budget
  that has executed at least one turn.
\<close>

theorem max_turn_unchecked:
  "(init E roles mt sto mlc w0 = (Inr orch0, w1) \<longrightarrow>
      init E roles (Some 0) sto mlc w0 = (Inr (orch0\<lparr>max_turn := Some 0\<rparr>), w1)) \<and>
   (max_turn orch = Some m \<and> m \<le> 0 \<longrightarrow>
      snd (schedule_line_runs E orch li inputs rid w) = w) \<and>
   (schedule_line_runs E orch' li inputs rid w = (Inr lr, w') \<longrightarrow>
      (\<exists>m' evs. max_turn orch' = Some m' \<and> 0 < m' \<and> w' = w @ evs \<and> evs \<noteq> []))"
proof (intro conjI impI)
  assume "init E roles mt sto mlc w0 = (Inr orch0, w1)"
  then show "init E roles (Some 0) sto mlc w0 = (Inr (orch0\<lparr>max_turn := Some 0\<rparr>), w1)"
    by (auto simp: init_def split: if_splits prod.splits sum.splits)
next
  assume "max_turn orch = Some m \<and> m \<le> 0"
  then show "snd (schedule_line_runs E orch li inputs rid w) = w"
    by (simp add: schedule_line_runs_def Let_def split: sum.splits option.splits)
next
  assume "schedule_line_runs E orch' li inputs rid w = (Inr lr, w')"
  from schedule_line_runs_Inr[OF this] obtain evs m' where
    "w' = w @ evs" "evs \<noteq> []" "max_turn orch' = Some m'" "length evs \<le> nat m'"
    by blast
  moreover from this have "0 < m'" by (cases evs) auto
  ultimately show "\<exists>m' evs. max_turn orch' = Some m' \<and> 0 < m' \<and> w' = w @ evs \<and> evs \<noteq> []"
    by blast
qed

theorem max_turn_unchecked_witness:
  "init (demo_env demo_script) [role_A, role_B] (Some 4) PNone None [] =
     (Inr (demo_orch (Some 4)), [CreateProxy role_A (Inr 0), CreateProxy role_B (Inr 1)]) \<and>
   init (demo_env demo_script) [role_A, role_B] (Some 0) PNone None [] =
     (Inr ((demo_orch (Some 4))\<lparr>max_turn := Some 0\<rparr>),
      [CreateProxy role_A (Inr 0), CreateProxy role_B (Inr 1)]) \<and>
   max_turn (demo_orch (Some 0)) = Some 0 \<and> (0::int) \<le> 0 \<and>
   snd (schedule_line_runs (demo_env demo_script) (demo_orch (Some 0)) 0 None None []) = [] \<and>
   schedule_line_runs (demo_env demo_script) (demo_orch (Some 4)) 0 None None [] =
     (Inr demo_line_result, [] @ demo_log) \<and>
   (\<exists>m' evs. max_turn (demo_orch (Some 4)) = Some m' \<and> 0 < m' \<and> [] @ demo_log = [] @ evs \<and> evs \<noteq> [])"
proof -
  have m0: "max_turn (demo_orch (Some 0)) = Some 0 \<and> (0::int) \<le> 0"
    by (simp add: demo_orch_def)
  note t = max_turn_unchecked [of "demo_env demo_script" "[role_A, role_B]" "Some 4" PNone None "[]"
      "demo_orch (Some 4)" "[CreateProxy role_A (Inr 0), CreateProxy role_B (Inr 1)]"
      "demo_orch (Some 0)" 0 0 None None "[]" "demo_orch (Some 4)" demo_line_result "[] @ demo_log"]
  from t demo_init [of demo_script "Some 4"] m0 demo_run show ?thesis by blast
qed

section \<open>Destruction\<close>

text \<open>
  C9, as the spec states it, does not hold: when the \<open>destroy\<close> of the first proxy fails,
  the failure is raised at once and the second proxy is not destroyed.
\<close>

theorem destroy_stops_at_failure_counterexample:
  "destroy failing_destroy_env (demo_orch (Some 4)) [] =
     (Inl (CollaboratorError ''destroy failed''),
      [DestroyProxy 0 (Some (CollaboratorError ''destroy failed''))])"
  by code_simp

text \<open>
  C9, amended. \<open>destroy\<close> destroys the proxies in the order of the roles. Either none
  fails, and every proxy has been destroyed exactly once; or the first failure, at the
  proxy of index \<open>n\<close>, is returned to the caller, the \<open>n\<close> proxies before it have been
  destroyed once and the ones after it have not been touched.
\<close>

theorem destroy_in_order_until_failure:
  "destroy E orch w = (r, w') \<Longrightarrow>
   (r = Inr () \<and> w' = w @ map (\<lambda>p. DestroyProxy p None) (executor_proxies orch)) \<or>
   (\<exists>n e. n < length (executor_proxies orch) \<and> r = Inl e \<and>
      w' = w @ map (\<lambda>p. DestroyProxy p None) (take n (executor_proxies orch)) @
             [DestroyProxy (executor_proxies orch ! n) (Some e)])"
  unfolding destroy_def by (rule destroy_loop_log)

theorem destroy_in_order_until_failure_witness:
  "destroy (demo_env demo_script) (demo_orch (Some 4)) [] =
     (Inr (), [] @ [DestroyProxy 0 None, DestroyProxy 1 None]) \<and>
   ((Inr () = (Inr () :: error + unit) \<and>
     [] @ [DestroyProxy 0 None, DestroyProxy 1 None] =
       [] @ map (\<lambda>p. DestroyProxy p None) (executor_proxies (demo_orch (Some 4)))) \<or>
    (\<exists>n e. n < length (executor_proxies (demo_orch (Some 4))) \<and> (Inr () :: error + unit) = Inl e \<and>
      [] @ [DestroyProxy 0 None, DestroyProxy 1 None] =
        [] @ map (\<lambda>p. DestroyProxy p None) (take n (executor_proxies (demo_orch (Some 4)))) @
             [DestroyProxy (executor_proxies (demo_orch (Some 4)) ! n) (Some e)]))"
  using destroy_in_order_until_failure [OF demo_destroy] demo_destroy by blast

end
